theory Spec2Isabelle
  imports Complex_Main
begin

section \<open>The allocation solver of internal/solver/solver.go\<close>

text \<open>
  A shallow embedding of \<^verbatim>\<open>prepareNodeInfo\<close>, \<^verbatim>\<open>prepareFunctionInfo\<close>,
  \<^verbatim>\<open>computeFunctionsAllocation\<close>, \<^verbatim>\<open>saveAllocationToEtcd\<close> and \<^verbatim>\<open>solve\<close>.
  Every external collaborator (the registries, the Python solver, the etcd client, the
  JSON encoder) is a field of an environment record; every effect the code has on them
  is an entry of a trace, in program order.
\<close>

subsection \<open>Numbers\<close>

text \<open>
  A Go \<^verbatim>\<open>float64\<close> is one of the finite values, the two infinities or NaN. The finite
  values are taken as the rationals they denote and arithmetic on them is exact: the
  rounding of binary64 results, overflow to infinity and the sign of zero are not part
  of this model. Division by zero and the propagation of infinities and NaN follow
  IEEE 754 as Go does.
\<close>

datatype float64 = Finite rat | PosInf | NegInf | NaN

definition fnegative :: "float64 \<Rightarrow> bool" where
  "fnegative x = (case x of Finite a \<Rightarrow> a < 0 | NegInf \<Rightarrow> True | _ \<Rightarrow> False)"

definition fmul :: "float64 \<Rightarrow> float64 \<Rightarrow> float64" where
  "fmul x y =
     (case (x, y) of
        (Finite a, Finite b) \<Rightarrow> Finite (a * b)
      | _ \<Rightarrow>
          if x = NaN \<or> y = NaN \<or> x = Finite 0 \<or> y = Finite 0 then NaN
          else if fnegative x = fnegative y then PosInf else NegInf)"

definition fdiv :: "float64 \<Rightarrow> float64 \<Rightarrow> float64" where
  "fdiv x y =
     (case (x, y) of
        (Finite a, Finite b) \<Rightarrow>
          if b \<noteq> 0 then Finite (a / b)
          else if a = 0 then NaN
          else if 0 < a then PosInf else NegInf
      | (Finite a, _) \<Rightarrow> if y = NaN then NaN else Finite 0
      | (_, Finite b) \<Rightarrow>
          if x = NaN then NaN
          else if fnegative x = fnegative y then PosInf else NegInf
      | _ \<Rightarrow> NaN)"

text \<open>\<^verbatim>\<open>math.Round\<close>: the nearest integer, halves away from zero; the special values
  are returned as they are.\<close>

definition round_half_away :: "rat \<Rightarrow> int" where
  "round_half_away q = (if 0 \<le> q then \<lfloor>q + 1 / 2\<rfloor> else - \<lfloor>- q + 1 / 2\<rfloor>)"

definition Round :: "float64 \<Rightarrow> float64" where
  "Round x = (case x of Finite q \<Rightarrow> Finite (of_int (round_half_away q)) | _ \<Rightarrow> x)"

text \<open>
  The conversion \<^verbatim>\<open>int(x)\<close> of a float64 drops the fraction (towards zero). Go's
  \<^verbatim>\<open>int\<close> has 64 bits here (the package links against a 64-bit CPython); where the
  value does not fit, and for the infinities and NaN, the language leaves the result to
  the implementation: \<open>oor\<close> is that result.
\<close>

definition trunc_rat :: "rat \<Rightarrow> int" where
  "trunc_rat q = (if 0 \<le> q then \<lfloor>q\<rfloor> else \<lceil>q\<rceil>)"

definition int_of_float64 :: "(float64 \<Rightarrow> int) \<Rightarrow> float64 \<Rightarrow> int" where
  "int_of_float64 oor x =
     (case x of
        Finite q \<Rightarrow>
          if - (2 ^ 63) \<le> trunc_rat q \<and> trunc_rat q < 2 ^ 63 then trunc_rat q else oor x
      | _ \<Rightarrow> oor x)"

text \<open>\<^verbatim>\<open>C.int(x)\<close>: a Go int cut to the 32 bits of a C int, two's complement.\<close>

definition C_int :: "int \<Rightarrow> int" where
  "C_int x = signed_take_bit 31 x"

subsection \<open>Data\<close>

text \<open>
  Modelled from the spec: the declarations of \<^verbatim>\<open>registration.StatusInformation\<close>,
  \<^verbatim>\<open>node.Resources\<close> and \<^verbatim>\<open>function.Function\<close> are not in solver.go. The fields are
  the ones solver.go reads and writes; \<^verbatim>\<open>TotalMemoryMB\<close> and the function's
  \<^verbatim>\<open>MemoryMB\<close>, \<^verbatim>\<open>Deadline\<close> and \<^verbatim>\<open>Invocations\<close> are 64-bit integers (so \<^verbatim>\<open>int(x)\<close> is
  the identity on them), the others are float64, as \<^verbatim>\<open>initNodeResources\<close> assigns them
  and as \<^verbatim>\<open>IPC * 10\<close>, \<^verbatim>\<open>Workload / 1e6\<close> and the CPU demand use them.
\<close>

record StatusInformation =
  Url :: string
  srvTotalMemoryMB :: int
  srvComputationalCapacity :: float64
  srvMaximumCapacity :: float64
  srvIPC :: float64
  srvPowerConsumption :: float64

record NodeResources =
  resTotalMemoryMB :: int
  resComputationalCapacity :: float64
  resMaximumCapacity :: float64
  resIPC :: float64
  resPowerConsumption :: float64

record Function =
  fnName :: string
  fnMemoryMB :: int
  fnWorkload :: float64
  fnDeadline :: int
  fnInvocations :: int
  fnCPUDemand :: float64

text \<open>The types of the package that solver.go uses (declared beside it).\<close>

record NodeInformation =
  TotalMemoryMB :: "int list"
  ComputationalCapacity :: "int list"
  MaximumCapacity :: "int list"
  IPC :: "int list"
  PowerConsumption :: "int list"

record FunctionInformation =
  MemoryMB :: "int list"
  Workload :: "int list"
  Deadline :: "int list"
  Invocations :: "int list"

text \<open>An element of a \<^verbatim>\<open>[]interface{}\<close> that \<^verbatim>\<open>json.Unmarshal\<close> filled: only a JSON
  number is a float64.\<close>

datatype any = Float64 float64 | String string | Bool bool | Nil
  | Array "any list" | Object "(string \<times> any) list"

text \<open>\<^verbatim>\<open>NodesInstances\<close> is a Go map from node index to a slice. A \<^verbatim>\<open>range\<close> over it
  visits every key once, in an order that the language leaves open: the list holds the
  entries in the order of that visit.\<close>

record SolverResults =
  SolverWalltime :: float64
  SolverStatusName :: string
  ObjectiveValue :: float64
  ActiveNodesIndexes :: "int list"
  FunctionsCapacity :: "float64 list"
  NodesInstances :: "(int \<times> any list) list"

record FunctionAllocation =
  Capacity :: float64
  Instances :: "string \<rightharpoonup> int"

type_synonym FunctionsAllocation = "string \<rightharpoonup> FunctionAllocation"

text \<open>What a call ends with: a value, a returned \<^verbatim>\<open>error\<close>, a run-time panic, or
  the exit of the process in \<^verbatim>\<open>log.Fatal\<close>.\<close>

datatype 'a res = Ok 'a | Error string | Panic string | Exit string

subsection \<open>The collaborators\<close>

text \<open>The arguments of \<^verbatim>\<open>C.startSolver\<close>: the two counts and the nine C arrays.\<close>

record SolveRequest =
  numberOfNodes :: int
  numberOfFunctions :: int
  nodeMemory :: "int list"
  nodeCapacity :: "int list"
  maximumCapacity :: "int list"
  nodeIpc :: "int list"
  nodePowerConsumption :: "int list"
  functionMemory :: "int list"
  functionWorkload :: "int list"
  functionDeadline :: "int list"
  functionInvocations :: "int list"

text \<open>
  What the process does to the world outside, in program order: the lines it logs and
  the calls it makes to the solver, to the function registry and to etcd.
\<close>

datatype event =
    LogRunningSolver
  | LogFatal string
  | LogErrorRetrievingFunction string
  | InitializePython
  | StartSolver SolveRequest
  | LogResults SolverResults
  | LogNodeInstances int "any list"
  | LogNodeIps "string list"
  | LogExpectedFloat64 any nat int
  | SavedFunction Function
  | EtcdGrant nat
  | EtcdPut string string nat
  | LogSolverTerminated

text \<open>
  The environment of one run of \<^verbatim>\<open>solve\<close>: what each collaborator answers.
  \<^item> \<open>intOutOfRange\<close>: \<^verbatim>\<open>int(x)\<close> where the language leaves it open (see above);
  \<^item> \<open>Resources\<close>, \<open>localIp\<close>: \<^verbatim>\<open>node.Resources\<close> and \<^verbatim>\<open>utils.GetIpAddress().String()\<close>;
  \<^item> \<open>GetServersMap\<close>: the peers, in the order in which \<^verbatim>\<open>range\<close> visits them
    (every value a non-nil pointer);
  \<^item> \<open>GetAll\<close>: the function names, or the error of \<^verbatim>\<open>function.GetAll\<close>;
  \<^item> \<open>saveError\<close>: the error, if any, of the \<^verbatim>\<open>SaveToEtcd\<close> call made for the
    function at an index, on the record it is given;
  \<^item> \<open>startSolver\<close>, \<open>unmarshalResults\<close>: the string the solver returns and what
    \<^verbatim>\<open>json.Unmarshal\<close> makes of it;
  \<^item> \<open>etcdClientError\<close>, \<open>Marshal\<close>, \<open>Grant\<close>, \<open>putError\<close>: the answers of
    \<^verbatim>\<open>utils.GetEtcdClient\<close>, \<^verbatim>\<open>json.Marshal\<close>, the lease grant (an error or a lease
    id) and the put.
\<close>

record env =
  intOutOfRange :: "float64 \<Rightarrow> int"
  Resources :: NodeResources
  localIp :: string
  GetServersMap :: "(string \<times> StatusInformation) list"
  GetAll :: "string + string list"
  saveError :: "nat \<Rightarrow> Function \<Rightarrow> string option"
  startSolver :: "SolveRequest \<Rightarrow> string"
  unmarshalResults :: "string \<Rightarrow> string + SolverResults"
  etcdClientError :: "string option"
  Marshal :: "FunctionsAllocation \<Rightarrow> string + string"
  Grant :: "string + nat"
  putError :: "string option"

text \<open>The state the run changes: the function registry, the keys of etcd that hold a
  value (with the lease they are bound to), and the trace.\<close>

record world =
  registry :: "string \<rightharpoonup> Function"
  kv :: "string \<rightharpoonup> string \<times> nat"
  trace :: "event list"

definition emit :: "event \<Rightarrow> world \<Rightarrow> world" where
  "emit ev w = w\<lparr>trace := trace w @ [ev]\<rparr>"

text \<open>
  Modelled from the spec: \<^verbatim>\<open>function.GetFunction\<close> and \<^verbatim>\<open>Function.SaveToEtcd\<close> are not
  in solver.go. The spec names them the function registry's ``metadata lookup'' and
  ``metadata persistence'': a lookup by name that can fail, and a write of the record
  under its name that can fail and then changes nothing.
\<close>

definition GetFunction :: "world \<Rightarrow> string \<Rightarrow> Function option" where
  "GetFunction w functionName = registry w functionName"

definition SaveToEtcd :: "env \<Rightarrow> nat \<Rightarrow> Function \<Rightarrow> world \<Rightarrow> string option \<times> world" where
  "SaveToEtcd e i f w =
     (case saveError e i f of
        Some err \<Rightarrow> (Some err, w)
      | None \<Rightarrow> (None, emit (SavedFunction f) (w\<lparr>registry := (registry w)(fnName f \<mapsto> f)\<rparr>)))"

subsection \<open>prepareNodeInfo\<close>

text \<open>solver.go, lines 187 to 219. The slice \<^verbatim>\<open>s[7:len(s) - 5]\<close> panics unless
  \<open>7 \<le> len(s) - 5\<close>; the loop below makes that test before it takes the slice.\<close>

definition urlSlice :: "string \<Rightarrow> string" where
  "urlSlice s = take (length s - 5 - 7) (drop 7 s)"

text \<open>The \<^verbatim>\<open>range serversMap\<close> loop, on the servers in the order of the visit.\<close>

fun nodeLoop :: "env \<Rightarrow> StatusInformation list \<Rightarrow> nat \<Rightarrow>
    NodeInformation \<Rightarrow> string list \<Rightarrow> (NodeInformation \<times> string list \<times> nat) res" where
  "nodeLoop e [] i nodeInfo nodeIp = Ok (nodeInfo, nodeIp, i)"
| "nodeLoop e (server # rest) i nodeInfo nodeIp =
     (let nodeInfo' = nodeInfo
            \<lparr>TotalMemoryMB := (TotalMemoryMB nodeInfo)[i := srvTotalMemoryMB server],
             ComputationalCapacity := (ComputationalCapacity nodeInfo)
               [i := int_of_float64 (intOutOfRange e) (srvComputationalCapacity server)],
             MaximumCapacity := (MaximumCapacity nodeInfo)
               [i := int_of_float64 (intOutOfRange e) (srvMaximumCapacity server)],
             IPC := (IPC nodeInfo)
               [i := int_of_float64 (intOutOfRange e) (fmul (srvIPC server) (Finite 10))],
             PowerConsumption := (PowerConsumption nodeInfo)
               [i := int_of_float64 (intOutOfRange e) (srvPowerConsumption server)]\<rparr>
      in if length (Url server) < 12 then Panic ''slice bounds out of range''
         else nodeLoop e rest (Suc i) nodeInfo' (nodeIp[i := urlSlice (Url server)]))"

definition localNode :: "env \<Rightarrow> nat \<Rightarrow> NodeInformation \<Rightarrow> NodeInformation" where
  "localNode e i nodeInfo = nodeInfo
     \<lparr>TotalMemoryMB := (TotalMemoryMB nodeInfo)[i := resTotalMemoryMB (Resources e)],
      ComputationalCapacity := (ComputationalCapacity nodeInfo)
        [i := int_of_float64 (intOutOfRange e) (resComputationalCapacity (Resources e))],
      MaximumCapacity := (MaximumCapacity nodeInfo)
        [i := int_of_float64 (intOutOfRange e) (resMaximumCapacity (Resources e))],
      IPC := (IPC nodeInfo)
        [i := int_of_float64 (intOutOfRange e) (fmul (resIPC (Resources e)) (Finite 10))],
      PowerConsumption := (PowerConsumption nodeInfo)
        [i := int_of_float64 (intOutOfRange e) (resPowerConsumption (Resources e))]\<rparr>"

definition prepareNodeInfo :: "env \<Rightarrow> (string \<times> StatusInformation) list \<Rightarrow>
    (NodeInformation \<times> string list) res" where
  "prepareNodeInfo e serversMap =
     (let n = length serversMap + 1;
          nodeIp = replicate n [];
          nodeInfo = \<lparr>TotalMemoryMB = replicate n 0,
                      ComputationalCapacity = replicate n 0,
                      MaximumCapacity = replicate n 0,
                      IPC = replicate n 0,
                      PowerConsumption = replicate n 0\<rparr>
      in case nodeLoop e (map snd serversMap) 0 nodeInfo nodeIp of
           Ok (nodeInfo, nodeIp, i) \<Rightarrow> Ok (localNode e i nodeInfo, nodeIp[i := localIp e])
         | Error err \<Rightarrow> Error err
         | Panic p \<Rightarrow> Panic p
         | Exit m \<Rightarrow> Exit m)"

subsection \<open>prepareFunctionInfo\<close>

text \<open>solver.go, lines 221 to 243. A failed lookup logs and goes on to the next
  function (\<^verbatim>\<open>continue\<close>).\<close>

fun functionLoop :: "env \<Rightarrow> string list \<Rightarrow> nat \<Rightarrow> FunctionInformation \<Rightarrow> world \<Rightarrow>
    FunctionInformation \<times> world" where
  "functionLoop e [] i functionInfo w = (functionInfo, w)"
| "functionLoop e (functionName # rest) i functionInfo w =
     (case GetFunction w functionName of
        None \<Rightarrow>
          functionLoop e rest (Suc i) functionInfo
            (emit (LogErrorRetrievingFunction functionName) w)
      | Some f \<Rightarrow>
          functionLoop e rest (Suc i)
            (functionInfo
              \<lparr>MemoryMB := (MemoryMB functionInfo)[i := fnMemoryMB f],
               Workload := (Workload functionInfo)
                 [i := int_of_float64 (intOutOfRange e) (fdiv (fnWorkload f) (Finite 1000000))],
               Deadline := (Deadline functionInfo)[i := fnDeadline f],
               Invocations := (Invocations functionInfo)[i := fnInvocations f]\<rparr>)
            w)"

definition prepareFunctionInfo :: "env \<Rightarrow> string list \<Rightarrow> world \<Rightarrow>
    FunctionInformation \<times> world" where
  "prepareFunctionInfo e functions w =
     functionLoop e functions 0
       \<lparr>MemoryMB = replicate (length functions) 0,
        Workload = replicate (length functions) 0,
        Deadline = replicate (length functions) 0,
        Invocations = replicate (length functions) 0\<rparr> w"

subsection \<open>computeFunctionsAllocation\<close>

text \<open>solver.go, lines 245 to 274. The inner loop, \<^verbatim>\<open>range results.NodesInstances\<close>, for the function at index \<open>i\<close>.
  \<^verbatim>\<open>instances[i]\<close> and \<^verbatim>\<open>nodeIp[key]\<close> panic out of range.\<close>

fun instancesLoop :: "env \<Rightarrow> string list \<Rightarrow> nat \<Rightarrow> (int \<times> any list) list \<Rightarrow>
    (string \<rightharpoonup> int) \<Rightarrow> world \<Rightarrow> (string \<rightharpoonup> int) res \<times> world" where
  "instancesLoop e nodeIp i [] ipInstancesMap w = (Ok ipInstancesMap, w)"
| "instancesLoop e nodeIp i ((key, instances) # rest) ipInstancesMap w =
     (if length instances \<le> i then (Panic ''index out of range'', w)
      else case instances ! i of
          Float64 floatVal \<Rightarrow>
            if key < 0 \<or> int (length nodeIp) \<le> key then (Panic ''index out of range'', w)
            else instancesLoop e nodeIp i rest
                   (ipInstancesMap(nodeIp ! nat key \<mapsto> int_of_float64 (intOutOfRange e) floatVal))
                   w
        | _ \<Rightarrow>
            instancesLoop e nodeIp i rest ipInstancesMap
              (emit (LogExpectedFloat64 (instances ! i) i key) w))"

text \<open>\<^verbatim>\<open>math.Round((capacity / MaximumCapacity) * 100) / 100\<close>\<close>

definition cpuDemand :: "float64 \<Rightarrow> float64 \<Rightarrow> float64" where
  "cpuDemand capacity maxCapacity =
     fdiv (Round (fmul (fdiv capacity maxCapacity) (Finite 100))) (Finite 100)"

text \<open>The outer loop, \<^verbatim>\<open>range functions\<close>, from index \<open>i\<close> on.\<close>

fun allocationLoop :: "env \<Rightarrow> SolverResults \<Rightarrow> string list \<Rightarrow> nat \<Rightarrow> string list \<Rightarrow>
    FunctionsAllocation \<Rightarrow> world \<Rightarrow> FunctionsAllocation res \<times> world" where
  "allocationLoop e results nodeIp i [] allocation w = (Ok allocation, w)"
| "allocationLoop e results nodeIp i (functionName # rest) allocation w =
     (case instancesLoop e nodeIp i (NodesInstances results) Map.empty w of
        (Ok ipInstancesMap, w1) \<Rightarrow>
          if length (FunctionsCapacity results) \<le> i then (Panic ''index out of range'', w1)
          else
            let allocation' = allocation(functionName \<mapsto>
                  \<lparr>Capacity = FunctionsCapacity results ! i, Instances = ipInstancesMap\<rparr>)
            in (case GetFunction w1 functionName of
                  None \<Rightarrow> (Error ''Function not found'', w1)
                | Some f \<Rightarrow>
                    (case SaveToEtcd e i
                            (f\<lparr>fnCPUDemand := cpuDemand (FunctionsCapacity results ! i)
                                  (resMaximumCapacity (Resources e))\<rparr>) w1 of
                       (Some err, w2) \<Rightarrow> (Error err, w2)
                     | (None, w2) \<Rightarrow> allocationLoop e results nodeIp (Suc i) rest allocation' w2))
      | (Error err, w1) \<Rightarrow> (Error err, w1)
      | (Panic p, w1) \<Rightarrow> (Panic p, w1)
      | (Exit m, w1) \<Rightarrow> (Exit m, w1))"

definition computeFunctionsAllocation :: "env \<Rightarrow> SolverResults \<Rightarrow> string list \<Rightarrow>
    string list \<Rightarrow> world \<Rightarrow> FunctionsAllocation res \<times> world" where
  "computeFunctionsAllocation e results functions nodeIp w =
     allocationLoop e results nodeIp 0 functions Map.empty w"

subsection \<open>saveAllocationToEtcd\<close>

text \<open>solver.go, lines 322 to 348. \<^verbatim>\<open>log.Fatal\<close> ends the process; an error of
  \<^verbatim>\<open>json.Marshal\<close> is returned to the caller.\<close>

definition saveAllocationToEtcd :: "env \<Rightarrow> FunctionsAllocation \<Rightarrow> world \<Rightarrow> unit res \<times> world" where
  "saveAllocationToEtcd e allocation w =
     (case etcdClientError e of
        Some err \<Rightarrow> (Exit err, emit (LogFatal err) w)
      | None \<Rightarrow>
          (case Marshal e allocation of
             Inl err \<Rightarrow> (Error (''Could not marshal allocation: '' @ err), w)
           | Inr payload \<Rightarrow>
               (case Grant e of
                  Inl err \<Rightarrow> (Exit err, emit (LogFatal err) (emit (EtcdGrant 60) w))
                | Inr leaseID \<Rightarrow>
                    (case putError e of
                       Some err \<Rightarrow>
                         (Exit err,
                          emit (LogFatal err)
                            (emit (EtcdPut ''allocation'' payload leaseID) (emit (EtcdGrant 60) w)))
                     | None \<Rightarrow>
                         (Ok (),
                          emit (EtcdPut ''allocation'' payload leaseID)
                            (emit (EtcdGrant 60)
                              (w\<lparr>kv := (kv w)(''allocation'' \<mapsto> (payload, leaseID))\<rparr>)))))))"

subsection \<open>solve\<close>

text \<open>solver.go, lines 89 to 185, and \<^verbatim>\<open>allocateAndInitialize\<close>, lines 277 to 285: the C
  array as the list of its elements, each an \<^verbatim>\<open>int\<close> cut to a C int. Allocation and the
  deferred \<^verbatim>\<open>C.freeMemory\<close> calls are memory management and are not events.\<close>

definition allocateAndInitialize :: "int list \<Rightarrow> int list" where
  "allocateAndInitialize data = map C_int data"

definition solverRequest :: "nat \<Rightarrow> nat \<Rightarrow> NodeInformation \<Rightarrow> FunctionInformation \<Rightarrow>
    SolveRequest" where
  "solverRequest nNodes nFunctions nodeInfo functionInfo =
     \<lparr>numberOfNodes = C_int (int nNodes),
      numberOfFunctions = C_int (int nFunctions),
      nodeMemory = allocateAndInitialize (TotalMemoryMB nodeInfo),
      nodeCapacity = allocateAndInitialize (ComputationalCapacity nodeInfo),
      maximumCapacity = allocateAndInitialize (MaximumCapacity nodeInfo),
      nodeIpc = allocateAndInitialize (IPC nodeInfo),
      nodePowerConsumption = allocateAndInitialize (PowerConsumption nodeInfo),
      functionMemory = allocateAndInitialize (MemoryMB functionInfo),
      functionWorkload = allocateAndInitialize (Workload functionInfo),
      functionDeadline = allocateAndInitialize (Deadline functionInfo),
      functionInvocations = allocateAndInitialize (Invocations functionInfo)\<rparr>"

text \<open>The part of \<^verbatim>\<open>solve\<close> after the solver's answer is decoded: the log of the
  results (five lines for the fields, one line for each entry of \<^verbatim>\<open>NodesInstances\<close>, one
  for the IP list), then planning and publishing.\<close>

definition logResults :: "SolverResults \<Rightarrow> string list \<Rightarrow> world \<Rightarrow> world" where
  "logResults results nodeIp w =
     (let w1 = emit (LogResults results) w;
          w2 = foldl (\<lambda>w (nodeID, instances). emit (LogNodeInstances nodeID instances) w)
                 w1 (NodesInstances results)
      in emit (LogNodeIps nodeIp) w2)"

definition processResults :: "env \<Rightarrow> SolverResults \<Rightarrow> string list \<Rightarrow> string list \<Rightarrow>
    world \<Rightarrow> unit res \<times> world" where
  "processResults e results functions nodeIp w =
     (let w3 = logResults results nodeIp w
      in case computeFunctionsAllocation e results functions nodeIp w3 of
           (Ok allocation, w4) \<Rightarrow>
             (case saveAllocationToEtcd e allocation w4 of
                (Ok u, w5) \<Rightarrow> (Ok (), emit LogSolverTerminated w5)
              | (Error err, w5) \<Rightarrow>
                  (Exit (''Error saving allocation to Etcd: '' @ err),
                   emit (LogFatal (''Error saving allocation to Etcd: '' @ err)) w5)
              | (Panic p, w5) \<Rightarrow> (Panic p, w5)
              | (Exit m, w5) \<Rightarrow> (Exit m, w5))
         | (Error err, w4) \<Rightarrow>
             (Exit (''Error processing allocation: '' @ err),
              emit (LogFatal (''Error processing allocation: '' @ err)) w4)
         | (Panic p, w4) \<Rightarrow> (Panic p, w4)
         | (Exit m, w4) \<Rightarrow> (Exit m, w4))"

definition solve :: "env \<Rightarrow> world \<Rightarrow> unit res \<times> world" where
  "solve e w0 =
     (let w = emit LogRunningSolver w0;
          serversMap = GetServersMap e
      in case GetAll e of
           Inl err \<Rightarrow>
             (Exit (''Error retrieving functions: '' @ err),
              emit (LogFatal (''Error retrieving functions: '' @ err)) w)
         | Inr functions \<Rightarrow>
             let nNodes = length serversMap + 1;
                 nFunctions = length functions
             in if nNodes = 0 \<or> nFunctions = 0 then (Ok (), w)
                else
                  (case prepareNodeInfo e serversMap of
                     Ok (nodeInfo, nodeIp) \<Rightarrow>
                       let (functionInfo, w1) = prepareFunctionInfo e functions w;
                           request = solverRequest nNodes nFunctions nodeInfo functionInfo;
                           w2 = emit (StartSolver request) (emit InitializePython w1)
                       in (case unmarshalResults e (startSolver e request) of
                             Inl err \<Rightarrow>
                               (Exit (''Error unmarshalling results: '' @ err),
                                emit (LogFatal (''Error unmarshalling results: '' @ err)) w2)
                           | Inr results \<Rightarrow> processResults e results functions nodeIp w2)
                   | Error err \<Rightarrow> (Error err, w)
                   | Panic p \<Rightarrow> (Panic p, w)
                   | Exit m \<Rightarrow> (Exit m, w)))"

section \<open>Properties\<close>

subsection \<open>Vocabulary of the properties\<close>

text \<open>The records that successful \<^verbatim>\<open>SaveToEtcd\<close> calls wrote, in the order of the calls:
  read off a trace, and off the part of the trace that a call added.\<close>

definition savedOf :: "event \<Rightarrow> Function list" where
  "savedOf ev = (case ev of SavedFunction f \<Rightarrow> [f] | _ \<Rightarrow> [])"

definition savedFunctions :: "event list \<Rightarrow> Function list" where
  "savedFunctions tr = concat (map savedOf tr)"


text \<open>Position \<open>i\<close> of the five node arrays and of the IP list, and what that position
  holds for a peer and for the local node.\<close>

definition nodeEntry :: "NodeInformation \<Rightarrow> string list \<Rightarrow> nat \<Rightarrow> int \<times> int \<times> int \<times> int \<times> int \<times> string" where
  "nodeEntry nodeInfo nodeIp i =
     (TotalMemoryMB nodeInfo ! i, ComputationalCapacity nodeInfo ! i, MaximumCapacity nodeInfo ! i,
      IPC nodeInfo ! i, PowerConsumption nodeInfo ! i, nodeIp ! i)"

definition peerEntry :: "env \<Rightarrow> StatusInformation \<Rightarrow> int \<times> int \<times> int \<times> int \<times> int \<times> string" where
  "peerEntry e server =
     (srvTotalMemoryMB server,
      int_of_float64 (intOutOfRange e) (srvComputationalCapacity server),
      int_of_float64 (intOutOfRange e) (srvMaximumCapacity server),
      int_of_float64 (intOutOfRange e) (fmul (srvIPC server) (Finite 10)),
      int_of_float64 (intOutOfRange e) (srvPowerConsumption server),
      urlSlice (Url server))"

definition localEntry :: "env \<Rightarrow> int \<times> int \<times> int \<times> int \<times> int \<times> string" where
  "localEntry e =
     (resTotalMemoryMB (Resources e),
      int_of_float64 (intOutOfRange e) (resComputationalCapacity (Resources e)),
      int_of_float64 (intOutOfRange e) (resMaximumCapacity (Resources e)),
      int_of_float64 (intOutOfRange e) (fmul (resIPC (Resources e)) (Finite 10)),
      int_of_float64 (intOutOfRange e) (resPowerConsumption (Resources e)),
      localIp e)"

text \<open>Position \<open>i\<close> of the four function arrays, and what a function's record gives.\<close>

definition functionEntry :: "FunctionInformation \<Rightarrow> nat \<Rightarrow> int \<times> int \<times> int \<times> int" where
  "functionEntry functionInfo i =
     (MemoryMB functionInfo ! i, Workload functionInfo ! i, Deadline functionInfo ! i,
      Invocations functionInfo ! i)"

definition functionEntryOf :: "env \<Rightarrow> Function \<Rightarrow> int \<times> int \<times> int \<times> int" where
  "functionEntryOf e f =
     (fnMemoryMB f, int_of_float64 (intOutOfRange e) (fdiv (fnWorkload f) (Finite 1000000)),
      fnDeadline f, fnInvocations f)"

definition sameLengths :: "FunctionInformation \<Rightarrow> nat \<Rightarrow> bool" where
  "sameLengths functionInfo n \<longleftrightarrow>
     length (MemoryMB functionInfo) = n \<and> length (Workload functionInfo) = n \<and>
     length (Deadline functionInfo) = n \<and> length (Invocations functionInfo) = n"

text \<open>
  Reading the solver's answer. A row of \<open>NodesInstances\<close> can be read at function index
  \<open>i\<close> when it has a position \<open>i\<close> and, if a number stands there, its key is an index
  of \<open>nodeIp\<close>; an index can be read when every row can and \<open>FunctionsCapacity\<close> has
  that position. \<open>shapeOk\<close> is the shape the answer should have for a snapshot: a
  capacity for every function, and for every node key a valid index and an entry for
  every function.
\<close>

definition isFloat64 :: "any \<Rightarrow> bool" where
  "isFloat64 v = (case v of Float64 x \<Rightarrow> True | _ \<Rightarrow> False)"

definition validKey :: "string list \<Rightarrow> int \<Rightarrow> bool" where
  "validKey nodeIp key \<longleftrightarrow> 0 \<le> key \<and> key < int (length nodeIp)"

definition rowOk :: "string list \<Rightarrow> nat \<Rightarrow> int \<times> any list \<Rightarrow> bool" where
  "rowOk nodeIp i row \<longleftrightarrow>
     i < length (snd row) \<and> (isFloat64 (snd row ! i) \<longrightarrow> validKey nodeIp (fst row))"

definition indexOk :: "SolverResults \<Rightarrow> string list \<Rightarrow> nat \<Rightarrow> bool" where
  "indexOk results nodeIp i \<longleftrightarrow>
     (\<forall>row\<in>set (NodesInstances results). rowOk nodeIp i row) \<and>
     i < length (FunctionsCapacity results)"




text \<open>The record that planning writes for the function at index \<open>i\<close>; a registry whose
  records are stored under their own names; a solver entry that is not a negative
  number and fits an int; the instance count a planning result holds for a function
  and an IP.\<close>

definition withDemand :: "env \<Rightarrow> SolverResults \<Rightarrow> nat \<Rightarrow> Function \<Rightarrow> Function" where
  "withDemand e results i f =
     f\<lparr>fnCPUDemand := cpuDemand (FunctionsCapacity results ! i) (resMaximumCapacity (Resources e))\<rparr>"

definition keyedByName :: "(string \<rightharpoonup> Function) \<Rightarrow> bool" where
  "keyedByName reg \<longleftrightarrow> (\<forall>name f. reg name = Some f \<longrightarrow> fnName f = name)"

definition countInRange :: "any \<Rightarrow> bool" where
  "countInRange v =
     (case v of Float64 (Finite q) \<Rightarrow> 0 \<le> q \<and> q < 2 ^ 63 | Float64 _ \<Rightarrow> False | _ \<Rightarrow> True)"

definition instancesAt :: "FunctionsAllocation res \<Rightarrow> string \<Rightarrow> string \<Rightarrow> int option" where
  "instancesAt r functionName ip =
     (case r of
        Ok allocation \<Rightarrow>
          (case allocation functionName of Some fa \<Rightarrow> Instances fa ip | None \<Rightarrow> None)
      | _ \<Rightarrow> None)"

text \<open>
  The host of a URL as the spec asks for it, by the structure of the URL: what stands
  after the scheme separator \<^verbatim>\<open>://\<close>, up to the port separator or the path. solver.go has
  no such parse; this is the other side of the comparison with \<open>urlSlice\<close>.
\<close>

fun afterScheme :: "string \<Rightarrow> string" where
  "afterScheme [] = []"
| "afterScheme (c # rest) =
     (if take 3 (c # rest) = ''://'' then drop 3 (c # rest) else afterScheme rest)"

definition specHost :: "string \<Rightarrow> string" where
  "specHost url = takeWhile (\<lambda>c. c \<noteq> CHR '':'' \<and> c \<noteq> CHR ''/'') (afterScheme url)"

subsection \<open>A small cluster to run the code on\<close>

text \<open>Two functions \<^verbatim>\<open>f\<close> and \<^verbatim>\<open>g\<close> in the registry, no peer, a local node of 200 MHz
  per core, a solver that answers with capacities 150 and 80 and, for node 0, three
  instances of \<^verbatim>\<open>f\<close> and a string where the instances of \<^verbatim>\<open>g\<close> should be, and an etcd
  that accepts every call. \<open>exServer\<close> is a peer for the runs that need one.\<close>

definition exFunction :: "string \<Rightarrow> Function" where
  "exFunction name = \<lparr>fnName = name, fnMemoryMB = 128, fnWorkload = Finite 5000000,
     fnDeadline = 100, fnInvocations = 10, fnCPUDemand = Finite 0\<rparr>"

definition exServer :: StatusInformation where
  "exServer = \<lparr>Url = ''http://192.168.1.10:1323'', srvTotalMemoryMB = 16000,
     srvComputationalCapacity = Finite 9600, srvMaximumCapacity = Finite 2400,
     srvIPC = Finite (3 / 2), srvPowerConsumption = Finite 350\<rparr>"

definition exResults :: SolverResults where
  "exResults = \<lparr>SolverWalltime = Finite 1, SolverStatusName = ''OPTIMAL'',
     ObjectiveValue = Finite 400, ActiveNodesIndexes = [0],
     FunctionsCapacity = [Finite 150, Finite 80],
     NodesInstances = [(0, [Float64 (Finite 3), String ''two''])]\<rparr>"

definition exEnv :: env where
  "exEnv = \<lparr>intOutOfRange = (\<lambda>x. 0),
     Resources = \<lparr>resTotalMemoryMB = 8000, resComputationalCapacity = Finite 800,
       resMaximumCapacity = Finite 200, resIPC = Finite 1, resPowerConsumption = Finite 400\<rparr>,
     localIp = ''10.0.0.9'',
     GetServersMap = [],
     GetAll = Inr [''f'', ''g''],
     saveError = (\<lambda>i f. None),
     startSolver = (\<lambda>request. ''{}''),
     unmarshalResults = (\<lambda>jsonStr. Inr exResults),
     etcdClientError = None,
     Marshal = (\<lambda>allocation. Inr ''payload''),
     Grant = Inr 7,
     putError = None\<rparr>"

definition exWorld :: world where
  "exWorld = \<lparr>registry = [''f'' \<mapsto> exFunction ''f'', ''g'' \<mapsto> exFunction ''g''],
     kv = Map.empty, trace = []\<rparr>"

text \<open>Variations: an etcd that refuses the write of the second function, a solver that
  answers a negative count, and one that answers one capacity for two functions.\<close>

definition exFailingEnv :: env where
  "exFailingEnv = exEnv\<lparr>saveError := (\<lambda>i f. if i = 1 then Some ''etcd unavailable'' else None)\<rparr>"

definition exNegativeResults :: SolverResults where
  "exNegativeResults = exResults\<lparr>NodesInstances := [(0, [Float64 (Finite (- 1)), Float64 (Finite 2)])]\<rparr>"

definition exShortResults :: SolverResults where
  "exShortResults = exResults\<lparr>FunctionsCapacity := [Finite 150],
     NodesInstances := [(0, [Float64 (Finite 3), Float64 (Finite 1)])]\<rparr>"

text \<open>A peer that listens on port 80, and the request that \<^verbatim>\<open>solve\<close> sends to the
  solver on the small cluster.\<close>

definition exShortPortServer :: StatusInformation where
  "exShortPortServer = exServer\<lparr>Url := ''http://10.0.0.1:80''\<rparr>"

definition exRequest :: SolveRequest where
  "exRequest = \<lparr>numberOfNodes = 1, numberOfFunctions = 2, nodeMemory = [8000],
      nodeCapacity = [800], maximumCapacity = [200], nodeIpc = [10],
      nodePowerConsumption = [400], functionMemory = [128, 128],
      functionWorkload = [5, 5], functionDeadline = [100, 100],
      functionInvocations = [10, 10]\<rparr>"

section \<open>Proofs\<close>

subsection \<open>The CPU demand\<close>





lemma cpuDemand_example: "cpuDemand (Finite 150) (Finite 200) = Finite (3 / 4)"
  by code_simp

subsection \<open>What the planning loops write\<close>

lemma savedFunctions_append [simp]:
  "savedFunctions (xs @ ys) = savedFunctions xs @ savedFunctions ys"
  by (simp add: savedFunctions_def)

lemma savedFunctions_Nil [simp]: "savedFunctions [] = []"
  by (simp add: savedFunctions_def)

lemma instancesLoop_frame:
  "instancesLoop e nodeIp i xs m w = (r, w') \<Longrightarrow>
     registry w' = registry w \<and> kv w' = kv w \<and>
     (\<exists>tr. trace w' = trace w @ tr \<and> savedFunctions tr = [])"
proof (induction xs arbitrary: m w)
  case Nil
  then show ?case by simp
next
  case (Cons x xs)
  obtain key instances where x: "x = (key, instances)" by (cases x)
  show ?case
  proof (cases "length instances \<le> i")
    case True
    with Cons.prems x show ?thesis by simp
  next
    case False
    show ?thesis
    proof (cases "\<exists>v. instances ! i = Float64 v")
      case True
      then obtain v where v: "instances ! i = Float64 v" by blast
      show ?thesis
      proof (cases "key < 0 \<or> int (length nodeIp) \<le> key")
        case True
        with Cons.prems x False v show ?thesis by simp
      next
        case k: False
        with Cons.prems x False v
        have "instancesLoop e nodeIp i xs
                (m(nodeIp ! nat key \<mapsto> int_of_float64 (intOutOfRange e) v)) w = (r, w')"
          by simp
        from Cons.IH[OF this] show ?thesis .
      qed
    next
      case nf: False
      with Cons.prems x False
      have "instancesLoop e nodeIp i xs m (emit (LogExpectedFloat64 (instances ! i) i key) w) = (r, w')"
        by (cases "instances ! i") simp_all
      from Cons.IH[OF this] show ?thesis
        by (auto simp: emit_def savedFunctions_def savedOf_def)
    qed
  qed
qed

lemma allocationLoop_saved:
  "allocationLoop e results nodeIp i fns alloc w = (r, w') \<Longrightarrow>
     \<exists>tr. trace w' = trace w @ tr \<and>
       map fnCPUDemand (savedFunctions tr) =
         map (\<lambda>c. cpuDemand c (resMaximumCapacity (Resources e)))
           (take (length (savedFunctions tr)) (drop i (FunctionsCapacity results)))"
proof (induction fns arbitrary: i alloc w)
  case Nil
  then show ?case by simp
next
  case (Cons functionName rest)
  obtain r1 w1 where il: "instancesLoop e nodeIp i (NodesInstances results) Map.empty w = (r1, w1)"
    by (cases "instancesLoop e nodeIp i (NodesInstances results) Map.empty w")
  from instancesLoop_frame[OF il] obtain tr1 where
    tr1: "trace w1 = trace w @ tr1" "savedFunctions tr1 = []" by blast
  show ?case
  proof (cases r1)
    case (Ok ipInstancesMap)
    show ?thesis
    proof (cases "length (FunctionsCapacity results) \<le> i")
      case True
      with Cons.prems il Ok tr1 show ?thesis by simp
    next
      case inb: False
      show ?thesis
      proof (cases "GetFunction w1 functionName")
        case None
        with Cons.prems il Ok inb tr1 show ?thesis by simp
      next
        case (Some f)
        let ?f' = "f\<lparr>fnCPUDemand := cpuDemand (FunctionsCapacity results ! i)
                        (resMaximumCapacity (Resources e))\<rparr>"
        show ?thesis
        proof (cases "saveError e i ?f'")
          case (Some err)
          with Cons.prems il Ok inb tr1 \<open>GetFunction w1 functionName = Some f\<close>
          show ?thesis by (simp add: SaveToEtcd_def)
        next
          case None
          let ?w2 = "emit (SavedFunction ?f') (w1\<lparr>registry := (registry w1)(fnName ?f' \<mapsto> ?f')\<rparr>)"
          from Cons.prems il Ok inb None \<open>GetFunction w1 functionName = Some f\<close>
          have "allocationLoop e results nodeIp (Suc i) rest
                  (alloc(functionName \<mapsto> \<lparr>Capacity = FunctionsCapacity results ! i,
                      Instances = ipInstancesMap\<rparr>)) ?w2 = (r, w')"
            by (simp add: SaveToEtcd_def)
          from Cons.IH[OF this] obtain tr2 where
            tr2: "trace w' = trace ?w2 @ tr2"
              "map fnCPUDemand (savedFunctions tr2) =
                 map (\<lambda>c. cpuDemand c (resMaximumCapacity (Resources e)))
                   (take (length (savedFunctions tr2)) (drop (Suc i) (FunctionsCapacity results)))"
            by blast
          have d: "drop i (FunctionsCapacity results) =
                   FunctionsCapacity results ! i # drop (Suc i) (FunctionsCapacity results)"
            using inb by (simp add: Cons_nth_drop_Suc)
          have "trace w' = trace w @ (tr1 @ [SavedFunction ?f'] @ tr2)"
            using tr1 tr2 by (simp add: emit_def)
          moreover have "savedFunctions (tr1 @ [SavedFunction ?f'] @ tr2) = ?f' # savedFunctions tr2"
            using tr1 by (simp add: savedFunctions_def savedOf_def)
          ultimately show ?thesis using tr2(2) d
            by (intro exI[of _ "tr1 @ [SavedFunction ?f'] @ tr2"]) simp
        qed
      qed
    qed
  next
    case (Error x)
    with Cons.prems il tr1 show ?thesis by simp
  next
    case (Panic x)
    with Cons.prems il tr1 show ?thesis by simp
  next
    case (Exit x)
    with Cons.prems il tr1 show ?thesis by simp
  qed
qed





subsection \<open>The node arrays\<close>

lemma take_Suc_update:
  "Suc (i + n) \<le> length xs \<Longrightarrow> take (Suc i) (xs[i := v]) = take i xs @ [v]"
  by (simp add: take_Suc_conv_app_nth)

lemma nodeLoop_closed:
  assumes "\<forall>s\<in>set servers. 12 \<le> length (Url s)"
    and "i + length servers \<le> length (TotalMemoryMB ni)"
    and "i + length servers \<le> length (ComputationalCapacity ni)"
    and "i + length servers \<le> length (MaximumCapacity ni)"
    and "i + length servers \<le> length (IPC ni)"
    and "i + length servers \<le> length (PowerConsumption ni)"
    and "i + length servers \<le> length ips"
  shows "nodeLoop e servers i ni ips =
     Ok (\<lparr>TotalMemoryMB = take i (TotalMemoryMB ni) @ map srvTotalMemoryMB servers
             @ drop (i + length servers) (TotalMemoryMB ni),
          ComputationalCapacity = take i (ComputationalCapacity ni)
             @ map (\<lambda>s. int_of_float64 (intOutOfRange e) (srvComputationalCapacity s)) servers
             @ drop (i + length servers) (ComputationalCapacity ni),
          MaximumCapacity = take i (MaximumCapacity ni)
             @ map (\<lambda>s. int_of_float64 (intOutOfRange e) (srvMaximumCapacity s)) servers
             @ drop (i + length servers) (MaximumCapacity ni),
          IPC = take i (IPC ni)
             @ map (\<lambda>s. int_of_float64 (intOutOfRange e) (fmul (srvIPC s) (Finite 10))) servers
             @ drop (i + length servers) (IPC ni),
          PowerConsumption = take i (PowerConsumption ni)
             @ map (\<lambda>s. int_of_float64 (intOutOfRange e) (srvPowerConsumption s)) servers
             @ drop (i + length servers) (PowerConsumption ni)\<rparr>,
         take i ips @ map (\<lambda>s. urlSlice (Url s)) servers @ drop (i + length servers) ips,
         i + length servers)"
  using assms
proof (induction servers arbitrary: i ni ips)
  case Nil
  then show ?case by simp
next
  case (Cons s servers)
  from Cons.prems have len: "\<not> length (Url s) < 12" by simp
  from Cons.prems have rest: "\<forall>s\<in>set servers. 12 \<le> length (Url s)" by simp
  from Cons.prems have b:
    "i < length (TotalMemoryMB ni)" "i < length (ComputationalCapacity ni)"
    "i < length (MaximumCapacity ni)" "i < length (IPC ni)"
    "i < length (PowerConsumption ni)" "i < length ips"
    by simp_all
  show ?case
    using Cons.prems b
    by (simp add: len Let_def Cons.IH[OF rest] take_Suc_update)
qed

lemma drop_Cons_replicate: "drop n (x # replicate n x) = [x]"
proof -
  have "drop n (replicate (Suc n) x) = [x]"
    by (simp only: drop_replicate) simp
  then show ?thesis by simp
qed

lemma prepareNodeInfo_closed:
  assumes "\<forall>s\<in>set (map snd serversMap). 12 \<le> length (Url s)"
  shows "prepareNodeInfo e serversMap =
     Ok (\<lparr>TotalMemoryMB = map (\<lambda>s. srvTotalMemoryMB (snd s)) serversMap
             @ [resTotalMemoryMB (Resources e)],
          ComputationalCapacity =
             map (\<lambda>s. int_of_float64 (intOutOfRange e) (srvComputationalCapacity (snd s))) serversMap
             @ [int_of_float64 (intOutOfRange e) (resComputationalCapacity (Resources e))],
          MaximumCapacity =
             map (\<lambda>s. int_of_float64 (intOutOfRange e) (srvMaximumCapacity (snd s))) serversMap
             @ [int_of_float64 (intOutOfRange e) (resMaximumCapacity (Resources e))],
          IPC =
             map (\<lambda>s. int_of_float64 (intOutOfRange e) (fmul (srvIPC (snd s)) (Finite 10))) serversMap
             @ [int_of_float64 (intOutOfRange e) (fmul (resIPC (Resources e)) (Finite 10))],
          PowerConsumption =
             map (\<lambda>s. int_of_float64 (intOutOfRange e) (srvPowerConsumption (snd s))) serversMap
             @ [int_of_float64 (intOutOfRange e) (resPowerConsumption (Resources e))]\<rparr>,
         map (\<lambda>s. urlSlice (Url (snd s))) serversMap @ [localIp e])"
proof -
  let ?n = "length serversMap + 1"
  let ?ni = "\<lparr>TotalMemoryMB = replicate ?n 0, ComputationalCapacity = replicate ?n 0,
              MaximumCapacity = replicate ?n 0, IPC = replicate ?n 0,
              PowerConsumption = replicate ?n 0\<rparr>"
  have "nodeLoop e (map snd serversMap) 0 ?ni (replicate ?n []) = Ok
     (\<lparr>TotalMemoryMB = map (\<lambda>s. srvTotalMemoryMB (snd s)) serversMap @ [0],
       ComputationalCapacity =
          map (\<lambda>s. int_of_float64 (intOutOfRange e) (srvComputationalCapacity (snd s))) serversMap @ [0],
       MaximumCapacity =
          map (\<lambda>s. int_of_float64 (intOutOfRange e) (srvMaximumCapacity (snd s))) serversMap @ [0],
       IPC =
          map (\<lambda>s. int_of_float64 (intOutOfRange e) (fmul (srvIPC (snd s)) (Finite 10))) serversMap @ [0],
       PowerConsumption =
          map (\<lambda>s. int_of_float64 (intOutOfRange e) (srvPowerConsumption (snd s))) serversMap @ [0]\<rparr>,
      map (\<lambda>s. urlSlice (Url (snd s))) serversMap @ [[]],
      length serversMap)"
    using nodeLoop_closed[OF assms, of 0 ?ni "replicate ?n []" e]
    by (simp add: comp_def drop_Cons_replicate)
  then show ?thesis
    by (simp add: prepareNodeInfo_def localNode_def Let_def list_update_append1 list_update_append)
qed

lemma nodeLoop_short_url:
  "\<exists>s\<in>set servers. length (Url s) < 12 \<Longrightarrow>
     nodeLoop e servers i ni ips = Panic ''slice bounds out of range''"
  by (induction servers arbitrary: i ni ips) (auto simp: Let_def)

lemma prepareNodeInfo_short_url:
  "\<exists>s\<in>set (map snd serversMap). length (Url s) < 12 \<Longrightarrow>
     prepareNodeInfo e serversMap = Panic ''slice bounds out of range''"
  by (simp add: prepareNodeInfo_def Let_def nodeLoop_short_url del: set_map)

text \<open>
  C7. For a peer map of size \<open>n\<close> (every URL long enough to be sliced, so that the
  snapshot is built), the five node arrays and the IP list have length \<open>n + 1\<close>, the
  local node's entries are at the last position \<open>n\<close>, and for every \<open>i < n\<close> position
  \<open>i\<close> of all six holds the values of one and the same peer, the \<open>i\<close>-th that the
  loop visited. The arrays are values: nothing in the cycle changes them afterwards.
\<close>

theorem node_arrays_aligned:
  assumes "\<forall>s\<in>set (map snd serversMap). 12 \<le> length (Url s)"
  shows "\<exists>nodeInfo nodeIp.
     prepareNodeInfo e serversMap = Ok (nodeInfo, nodeIp) \<and>
     length (TotalMemoryMB nodeInfo) = length serversMap + 1 \<and>
     length (ComputationalCapacity nodeInfo) = length serversMap + 1 \<and>
     length (MaximumCapacity nodeInfo) = length serversMap + 1 \<and>
     length (IPC nodeInfo) = length serversMap + 1 \<and>
     length (PowerConsumption nodeInfo) = length serversMap + 1 \<and>
     length nodeIp = length serversMap + 1 \<and>
     nodeEntry nodeInfo nodeIp (length serversMap) = localEntry e \<and>
     (\<forall>i<length serversMap. nodeEntry nodeInfo nodeIp i = peerEntry e (snd (serversMap ! i)))"
  by (simp add: prepareNodeInfo_closed[OF assms] nodeEntry_def localEntry_def peerEntry_def
      nth_append)

theorem node_arrays_aligned_witness:
  "12 \<le> length (Url exServer) \<and>
   (\<exists>nodeInfo nodeIp.
     prepareNodeInfo exEnv [(''node1'', exServer)] = Ok (nodeInfo, nodeIp) \<and>
     length (TotalMemoryMB nodeInfo) = 2 \<and> length nodeIp = 2 \<and>
     nodeEntry nodeInfo nodeIp 1 = (8000, 800, 200, 10, 400, ''10.0.0.9'') \<and>
     nodeEntry nodeInfo nodeIp 0 = (16000, 9600, 2400, 15, 350, ''192.168.1.10''))"
proof -
  have h: "\<forall>s\<in>set (map snd [(''node1'', exServer)]). 12 \<le> length (Url s)"
    by (simp add: exServer_def)
  have l: "localEntry exEnv = (8000, 800, 200, 10, 400, ''10.0.0.9'')"
    by (simp add: localEntry_def exEnv_def int_of_float64_def trunc_rat_def fmul_def)
  have p: "peerEntry exEnv exServer = (16000, 9600, 2400, 15, 350, ''192.168.1.10'')"
    by (simp add: peerEntry_def exEnv_def exServer_def int_of_float64_def trunc_rat_def fmul_def
        urlSlice_def)
  from node_arrays_aligned[OF h, of exEnv] l p show ?thesis
    by (auto simp: exServer_def)
qed

subsection \<open>The function arrays\<close>

lemma functionLoop_spec:
  assumes "functionLoop e fns i fi w = (fi', w')"
    and "sameLengths fi n" and "i + length fns \<le> n"
  shows "sameLengths fi' n \<and> registry w' = registry w \<and> kv w' = kv w \<and>
     trace w' = trace w @ map LogErrorRetrievingFunction (filter (\<lambda>name. registry w name = None) fns) \<and>
     (\<forall>k<i. functionEntry fi' k = functionEntry fi k) \<and>
     (\<forall>k<length fns. functionEntry fi' (i + k) =
        (case registry w (fns ! k) of None \<Rightarrow> functionEntry fi (i + k)
         | Some f \<Rightarrow> functionEntryOf e f))"
  using assms
proof (induction fns arbitrary: i fi w)
  case Nil
  then show ?case by simp
next
  case (Cons name rest)
  show ?case
  proof (cases "registry w name")
    case None
    let ?w1 = "emit (LogErrorRetrievingFunction name) w"
    from Cons.prems None have run: "functionLoop e rest (Suc i) fi ?w1 = (fi', w')"
      by (simp add: GetFunction_def)
    from Cons.prems have "Suc i + length rest \<le> n" by simp
    from Cons.IH[OF run Cons.prems(2) this]
    have ih: "sameLengths fi' n" "registry w' = registry ?w1" "kv w' = kv ?w1"
      "trace w' = trace ?w1 @ map LogErrorRetrievingFunction (filter (\<lambda>name. registry ?w1 name = None) rest)"
      "\<forall>k<Suc i. functionEntry fi' k = functionEntry fi k"
      "\<forall>k<length rest. functionEntry fi' (Suc i + k) =
        (case registry ?w1 (rest ! k) of None \<Rightarrow> functionEntry fi (Suc i + k)
         | Some f \<Rightarrow> functionEntryOf e f)"
      by blast+
    have reg: "registry ?w1 = registry w" "kv ?w1 = kv w"
      "trace ?w1 = trace w @ [LogErrorRetrievingFunction name]"
      by (simp_all add: emit_def)
    have "\<forall>k<length (name # rest). functionEntry fi' (i + k) =
        (case registry w ((name # rest) ! k) of None \<Rightarrow> functionEntry fi (i + k)
         | Some f \<Rightarrow> functionEntryOf e f)"
    proof (intro allI impI)
      fix k assume k: "k < length (name # rest)"
      show "functionEntry fi' (i + k) =
        (case registry w ((name # rest) ! k) of None \<Rightarrow> functionEntry fi (i + k)
         | Some f \<Rightarrow> functionEntryOf e f)"
      proof (cases k)
        case 0
        with ih(5) None show ?thesis by simp
      next
        case (Suc k')
        with k ih(6) reg show ?thesis by (simp split: option.splits)
      qed
    qed
    with ih reg None show ?thesis by simp
  next
    case (Some f)
    let ?fi1 = "fi\<lparr>MemoryMB := (MemoryMB fi)[i := fnMemoryMB f],
               Workload := (Workload fi)
                 [i := int_of_float64 (intOutOfRange e) (fdiv (fnWorkload f) (Finite 1000000))],
               Deadline := (Deadline fi)[i := fnDeadline f],
               Invocations := (Invocations fi)[i := fnInvocations f]\<rparr>"
    from Cons.prems Some have run: "functionLoop e rest (Suc i) ?fi1 w = (fi', w')"
      by (simp add: GetFunction_def)
    from Cons.prems have b: "Suc i + length rest \<le> n" by simp
    from Cons.prems(2) have sl: "sameLengths ?fi1 n" by (simp add: sameLengths_def)
    from Cons.IH[OF run sl b]
    have ih: "sameLengths fi' n" "registry w' = registry w" "kv w' = kv w"
      "trace w' = trace w @ map LogErrorRetrievingFunction (filter (\<lambda>name. registry w name = None) rest)"
      "\<forall>k<Suc i. functionEntry fi' k = functionEntry ?fi1 k"
      "\<forall>k<length rest. functionEntry fi' (Suc i + k) =
        (case registry w (rest ! k) of None \<Rightarrow> functionEntry ?fi1 (Suc i + k)
         | Some f \<Rightarrow> functionEntryOf e f)"
      by blast+
    from Cons.prems(2) b have at_i: "functionEntry ?fi1 i = functionEntryOf e f"
      by (simp add: functionEntry_def functionEntryOf_def sameLengths_def)
    have other: "\<And>k. k \<noteq> i \<Longrightarrow> functionEntry ?fi1 k = functionEntry fi k"
      by (simp add: functionEntry_def)
    have "\<forall>k<length (name # rest). functionEntry fi' (i + k) =
        (case registry w ((name # rest) ! k) of None \<Rightarrow> functionEntry fi (i + k)
         | Some f \<Rightarrow> functionEntryOf e f)"
    proof (intro allI impI)
      fix k assume k: "k < length (name # rest)"
      show "functionEntry fi' (i + k) =
        (case registry w ((name # rest) ! k) of None \<Rightarrow> functionEntry fi (i + k)
         | Some f \<Rightarrow> functionEntryOf e f)"
      proof (cases k)
        case 0
        with ih(5) Some at_i show ?thesis by simp
      next
        case (Suc k')
        with k ih(6) other[of "Suc i + k'"] show ?thesis by (simp split: option.splits)
      qed
    qed
    moreover have "\<forall>k<i. functionEntry fi' k = functionEntry fi k"
      using ih(5) other by simp
    ultimately show ?thesis using ih Some by simp
  qed
qed

text \<open>
  C8. \<^verbatim>\<open>prepareFunctionInfo\<close> always returns its four arrays, of the length of the
  function list. Where the lookup of a function name fails, the four entries of that
  function stay zero and the failure is logged; every function whose lookup succeeds
  has the entries of its own record, whatever happened to the others.
\<close>

theorem function_lookup_soft_fail:
  assumes "prepareFunctionInfo e functions w = (functionInfo, w')"
  shows "sameLengths functionInfo (length functions) \<and>
     (\<forall>i<length functions.
        case GetFunction w (functions ! i) of
          None \<Rightarrow> functionEntry functionInfo i = (0, 0, 0, 0) \<and>
                  LogErrorRetrievingFunction (functions ! i) \<in> set (trace w')
        | Some f \<Rightarrow> functionEntry functionInfo i = functionEntryOf e f)"
proof -
  let ?fi0 = "\<lparr>MemoryMB = replicate (length functions) 0,
        Workload = replicate (length functions) 0,
        Deadline = replicate (length functions) 0,
        Invocations = replicate (length functions) 0\<rparr>"
  have sl: "sameLengths ?fi0 (length functions)" by (simp add: sameLengths_def)
  from assms have run: "functionLoop e functions 0 ?fi0 w = (functionInfo, w')"
    by (simp add: prepareFunctionInfo_def)
  from functionLoop_spec[OF run sl]
  have s: "sameLengths functionInfo (length functions)"
    and tr: "trace w' = trace w @ map LogErrorRetrievingFunction (filter (\<lambda>name. registry w name = None) functions)"
    and en: "\<forall>k<length functions. functionEntry functionInfo (0 + k) =
        (case registry w (functions ! k) of None \<Rightarrow> functionEntry ?fi0 (0 + k)
         | Some f \<Rightarrow> functionEntryOf e f)"
    by simp_all
  have "\<forall>i<length functions.
        case GetFunction w (functions ! i) of
          None \<Rightarrow> functionEntry functionInfo i = (0, 0, 0, 0) \<and>
                  LogErrorRetrievingFunction (functions ! i) \<in> set (trace w')
        | Some f \<Rightarrow> functionEntry functionInfo i = functionEntryOf e f"
  proof (intro allI impI)
    fix i assume i: "i < length functions"
    show "case GetFunction w (functions ! i) of
          None \<Rightarrow> functionEntry functionInfo i = (0, 0, 0, 0) \<and>
                  LogErrorRetrievingFunction (functions ! i) \<in> set (trace w')
        | Some f \<Rightarrow> functionEntry functionInfo i = functionEntryOf e f"
    proof (cases "registry w (functions ! i)")
      case None
      with en i have "functionEntry functionInfo i = (0, 0, 0, 0)"
        by (simp add: functionEntry_def)
      moreover from None i have "LogErrorRetrievingFunction (functions ! i) \<in> set (trace w')"
        by (simp add: tr)
      ultimately show ?thesis using None by (simp add: GetFunction_def)
    next
      case (Some f)
      with en i show ?thesis by (simp add: GetFunction_def)
    qed
  qed
  with s show ?thesis by simp
qed

theorem function_lookup_soft_fail_witness:
  "sameLengths (fst (prepareFunctionInfo exEnv [''f'', ''h''] exWorld)) 2 \<and>
   functionEntry (fst (prepareFunctionInfo exEnv [''f'', ''h''] exWorld)) 0 = (128, 5, 100, 10) \<and>
   functionEntry (fst (prepareFunctionInfo exEnv [''f'', ''h''] exWorld)) 1 = (0, 0, 0, 0) \<and>
   LogErrorRetrievingFunction ''h'' \<in> set (trace (snd (prepareFunctionInfo exEnv [''f'', ''h''] exWorld)))"
proof -
  let ?r = "prepareFunctionInfo exEnv [''f'', ''h''] exWorld"
  have run: "?r = (fst ?r, snd ?r)" by simp
  have f: "GetFunction exWorld ''f'' = Some (exFunction ''f'')"
    and g: "GetFunction exWorld ''h'' = None"
    by (simp_all add: GetFunction_def exWorld_def)
  have c: "functionEntryOf exEnv (exFunction ''f'') = (128, 5, 100, 10)"
    by (simp add: functionEntryOf_def exFunction_def exEnv_def int_of_float64_def trunc_rat_def
        fdiv_def)
  from function_lookup_soft_fail[OF run]
  have a: "sameLengths (fst ?r) (length [''f'', ''h''])"
    and b: "\<forall>i<length [''f'', ''h''].
        case GetFunction exWorld ([''f'', ''h''] ! i) of
          None \<Rightarrow> functionEntry (fst ?r) i = (0, 0, 0, 0) \<and>
                  LogErrorRetrievingFunction ([''f'', ''h''] ! i) \<in> set (trace (snd ?r))
        | Some f \<Rightarrow> functionEntry (fst ?r) i = functionEntryOf exEnv f"
    by blast+
  from b[rule_format, of 0] b[rule_format, of 1] a f g c show ?thesis
    by (simp add: numeral_2_eq_2)
qed

subsection \<open>The inner loop of planning\<close>


lemma instancesLoop_Cons_float:
  "i < length instances \<Longrightarrow> instances ! i = Float64 v \<Longrightarrow> validKey nodeIp key \<Longrightarrow>
   instancesLoop e nodeIp i ((key, instances) # rest) m w =
   instancesLoop e nodeIp i rest (m(nodeIp ! nat key \<mapsto> int_of_float64 (intOutOfRange e) v)) w"
  by (simp add: validKey_def)

lemma instancesLoop_Cons_other:
  "i < length instances \<Longrightarrow> \<not> isFloat64 (instances ! i) \<Longrightarrow>
   instancesLoop e nodeIp i ((key, instances) # rest) m w =
   instancesLoop e nodeIp i rest m (emit (LogExpectedFloat64 (instances ! i) i key) w)"
  by (cases "instances ! i") (simp_all add: isFloat64_def)

lemma instancesLoop_Cons_panic:
  "\<not> rowOk nodeIp i (key, instances) \<Longrightarrow>
   instancesLoop e nodeIp i ((key, instances) # rest) m w = (Panic ''index out of range'', w)"
  by (cases "instances ! i") (auto simp: rowOk_def isFloat64_def validKey_def)

text \<open>The inner loop ends in a value exactly when every row can be read at \<open>i\<close>.\<close>

lemma instancesLoop_Ok:
  "\<forall>row\<in>set rows. rowOk nodeIp i row \<Longrightarrow>
   \<exists>m' w'. instancesLoop e nodeIp i rows m w = (Ok m', w')"
proof (induction rows arbitrary: m w)
  case Nil
  then show ?case by simp
next
  case (Cons row rows)
  obtain key instances where row: "row = (key, instances)" by (cases row)
  from Cons.prems row have ok: "i < length instances"
    "isFloat64 (instances ! i) \<longrightarrow> validKey nodeIp key"
    by (simp_all add: rowOk_def)
  from Cons.prems have rest: "\<forall>row\<in>set rows. rowOk nodeIp i row" by simp
  show ?case
  proof (cases "isFloat64 (instances ! i)")
    case True
    then obtain v where "instances ! i = Float64 v"
      by (cases "instances ! i") (simp_all add: isFloat64_def)
    with ok True Cons.IH[OF rest] row show ?thesis
      by (simp add: instancesLoop_Cons_float del: instancesLoop.simps)
  next
    case False
    with ok Cons.IH[OF rest] row show ?thesis
      by (simp add: instancesLoop_Cons_other del: instancesLoop.simps)
  qed
qed

lemma instancesLoop_Panic:
  "\<exists>row\<in>set rows. \<not> rowOk nodeIp i row \<Longrightarrow>
   \<exists>w'. instancesLoop e nodeIp i rows m w = (Panic ''index out of range'', w')"
proof (induction rows arbitrary: m w)
  case Nil
  then show ?case by simp
next
  case (Cons row rows)
  obtain key instances where row: "row = (key, instances)" by (cases row)
  show ?case
  proof (cases "rowOk nodeIp i (key, instances)")
    case False
    from instancesLoop_Cons_panic[OF False, of e rows m w] show ?thesis
      unfolding row by blast
  next
    case True
    with Cons.prems row have rest: "\<exists>row\<in>set rows. \<not> rowOk nodeIp i row" by auto
    from True have ok: "i < length instances"
      "isFloat64 (instances ! i) \<longrightarrow> validKey nodeIp key"
      by (simp_all add: rowOk_def)
    show ?thesis
    proof (cases "isFloat64 (instances ! i)")
      case f: True
      then obtain v where "instances ! i = Float64 v"
        by (cases "instances ! i") (simp_all add: isFloat64_def)
      with ok f Cons.IH[OF rest] row show ?thesis
        by (simp add: instancesLoop_Cons_float del: instancesLoop.simps)
    next
      case False
      with ok Cons.IH[OF rest] row show ?thesis
        by (simp add: instancesLoop_Cons_other del: instancesLoop.simps)
    qed
  qed
qed

text \<open>Where the values of the instance map come from, which IPs have one, and what is
  logged.\<close>

lemma instancesLoop_values:
  "instancesLoop e nodeIp i rows m w = (Ok m', w') \<Longrightarrow> m' ip = Some n \<Longrightarrow>
   m ip = Some n \<or>
   (\<exists>key instances v. (key, instances) \<in> set rows \<and> i < length instances \<and>
      instances ! i = Float64 v \<and> validKey nodeIp key \<and>
      ip = nodeIp ! nat key \<and> n = int_of_float64 (intOutOfRange e) v)"
proof (induction rows arbitrary: m w)
  case Nil
  then show ?case by simp
next
  case (Cons row rows)
  obtain key instances where row: "row = (key, instances)" by (cases row)
  show ?case
  proof (cases "rowOk nodeIp i (key, instances)")
    case False
    from instancesLoop_Cons_panic[OF False, of e rows m w] Cons.prems(1) show ?thesis
      unfolding row by simp
  next
    case True
    then have ok: "i < length instances"
      "isFloat64 (instances ! i) \<longrightarrow> validKey nodeIp key"
      by (simp_all add: rowOk_def)
    show ?thesis
    proof (cases "isFloat64 (instances ! i)")
      case f: True
      then obtain v where v: "instances ! i = Float64 v"
        by (cases "instances ! i") (simp_all add: isFloat64_def)
      with ok f Cons.prems(1) row
      have "instancesLoop e nodeIp i rows
              (m(nodeIp ! nat key \<mapsto> int_of_float64 (intOutOfRange e) v)) w = (Ok m', w')"
        by (simp add: instancesLoop_Cons_float del: instancesLoop.simps)
      from Cons.IH[OF this Cons.prems(2)] ok f v row show ?thesis
        by (auto split: if_splits)
    next
      case False
      with ok Cons.prems(1) row
      have "instancesLoop e nodeIp i rows m (emit (LogExpectedFloat64 (instances ! i) i key) w)
              = (Ok m', w')"
        by (simp add: instancesLoop_Cons_other del: instancesLoop.simps)
      from Cons.IH[OF this Cons.prems(2)] row show ?thesis by auto
    qed
  qed
qed




subsection \<open>The outer loop of planning\<close>

text \<open>One round of the outer loop, case by case.\<close>

lemma fnName_withDemand [simp]: "fnName (withDemand e results i f) = fnName f"
  by (simp add: withDemand_def)

lemma allocationLoop_Cons_panic:
  assumes "\<not> indexOk results nodeIp i"
  shows "\<exists>w1. allocationLoop e results nodeIp i (name # rest) alloc w =
           (Panic ''index out of range'', w1)"
proof (cases "\<forall>row\<in>set (NodesInstances results). rowOk nodeIp i row")
  case True
  from instancesLoop_Ok[OF True, of e Map.empty w] obtain m w1 where
    "instancesLoop e nodeIp i (NodesInstances results) Map.empty w = (Ok m, w1)" by blast
  moreover from True assms have "length (FunctionsCapacity results) \<le> i"
    by (simp add: indexOk_def)
  ultimately show ?thesis by simp
next
  case False
  then have "\<exists>row\<in>set (NodesInstances results). \<not> rowOk nodeIp i row" by blast
  from instancesLoop_Panic[OF this, of e Map.empty w] show ?thesis by auto
qed

lemma allocationLoop_Cons_not_found:
  assumes "indexOk results nodeIp i" and "registry w name = None"
  shows "\<exists>w1. allocationLoop e results nodeIp i (name # rest) alloc w =
           (Error ''Function not found'', w1) \<and> registry w1 = registry w"
proof -
  from assms(1) have rows: "\<forall>row\<in>set (NodesInstances results). rowOk nodeIp i row"
    and cap: "\<not> length (FunctionsCapacity results) \<le> i"
    by (simp_all add: indexOk_def)
  from instancesLoop_Ok[OF rows, of e Map.empty w] obtain m w1 where
    il: "instancesLoop e nodeIp i (NodesInstances results) Map.empty w = (Ok m, w1)" by blast
  from instancesLoop_frame[OF il] have "registry w1 = registry w" by simp
  with il cap assms(2) show ?thesis by (simp add: GetFunction_def)
qed

lemma allocationLoop_Cons_save_fails:
  assumes "indexOk results nodeIp i" and "registry w name = Some f"
    and "saveError e i (withDemand e results i f) = Some err"
  shows "\<exists>w1. allocationLoop e results nodeIp i (name # rest) alloc w = (Error err, w1) \<and>
           registry w1 = registry w"
proof -
  from assms(1) have rows: "\<forall>row\<in>set (NodesInstances results). rowOk nodeIp i row"
    and cap: "\<not> length (FunctionsCapacity results) \<le> i"
    by (simp_all add: indexOk_def)
  from instancesLoop_Ok[OF rows, of e Map.empty w] obtain m w1 where
    il: "instancesLoop e nodeIp i (NodesInstances results) Map.empty w = (Ok m, w1)" by blast
  from instancesLoop_frame[OF il] have "registry w1 = registry w" by simp
  with il cap assms(2,3) show ?thesis
    by (simp add: GetFunction_def SaveToEtcd_def withDemand_def)
qed

lemma allocationLoop_Cons_saved:
  assumes "indexOk results nodeIp i" and "registry w name = Some f"
    and "saveError e i (withDemand e results i f) = None"
  shows "\<exists>m w1 w2.
     instancesLoop e nodeIp i (NodesInstances results) Map.empty w = (Ok m, w1) \<and>
     registry w2 = (registry w)(fnName f \<mapsto> withDemand e results i f) \<and>
     set (trace w1) \<subseteq> set (trace w2) \<and>
     allocationLoop e results nodeIp i (name # rest) alloc w =
       allocationLoop e results nodeIp (Suc i) rest
         (alloc(name \<mapsto> \<lparr>Capacity = FunctionsCapacity results ! i, Instances = m\<rparr>)) w2"
proof -
  from assms(1) have rows: "\<forall>row\<in>set (NodesInstances results). rowOk nodeIp i row"
    and cap: "\<not> length (FunctionsCapacity results) \<le> i"
    by (simp_all add: indexOk_def)
  from instancesLoop_Ok[OF rows, of e Map.empty w] obtain m w1 where
    il: "instancesLoop e nodeIp i (NodesInstances results) Map.empty w = (Ok m, w1)" by blast
  from instancesLoop_frame[OF il] have reg: "registry w1 = registry w" by simp
  let ?w2 = "emit (SavedFunction (withDemand e results i f))
               (w1\<lparr>registry := (registry w1)(fnName f \<mapsto> withDemand e results i f)\<rparr>)"
  have "registry ?w2 = (registry w)(fnName f \<mapsto> withDemand e results i f)"
    by (simp add: emit_def reg)
  moreover have "set (trace w1) \<subseteq> set (trace ?w2)"
    by (auto simp: emit_def)
  moreover have "allocationLoop e results nodeIp i (name # rest) alloc w =
       allocationLoop e results nodeIp (Suc i) rest
         (alloc(name \<mapsto> \<lparr>Capacity = FunctionsCapacity results ! i, Instances = m\<rparr>)) ?w2"
    using il cap assms(2,3) reg
    by (simp add: GetFunction_def SaveToEtcd_def withDemand_def)
  ultimately show ?thesis using il by blast
qed

lemma allocationLoop_trace_mono:
  "allocationLoop e results nodeIp i fns alloc w = (r, w') \<Longrightarrow> set (trace w) \<subseteq> set (trace w')"
  by (drule allocationLoop_saved) auto

lemma allocationLoop_Cons_cases:
  obtains (panic) "\<not> indexOk results nodeIp i"
  | (not_found) "indexOk results nodeIp i" "registry w name = None"
  | (save_fails) f err where "indexOk results nodeIp i" "registry w name = Some f"
      "saveError e i (withDemand e results i f) = Some err"
  | (saved) f where "indexOk results nodeIp i" "registry w name = Some f"
      "saveError e i (withDemand e results i f) = None"
  by (cases "indexOk results nodeIp i"; cases "registry w name";
      cases "saveError e i (withDemand e results i (the (registry w name)))") auto




text \<open>A write that fails at the \<open>j\<close>-th function of the list leaves the writes before it.\<close>

lemma keyedByName_update:
  "keyedByName reg \<Longrightarrow> fnName f = name \<Longrightarrow> keyedByName (reg(name \<mapsto> f))"
  by (simp add: keyedByName_def)

lemma allocationLoop_fails_at:
  assumes "j < length fns" and "distinct (take (Suc j) fns)" and "keyedByName (registry w)"
    and "\<forall>k\<le>j. indexOk results nodeIp (i + k)"
    and "\<forall>k<j. \<exists>f. registry w (fns ! k) = Some f \<and>
            saveError e (i + k) (withDemand e results (i + k) f) = None"
    and "\<exists>f. registry w (fns ! j) = Some f \<and>
            saveError e (i + j) (withDemand e results (i + j) f) = Some err"
  shows "\<exists>w'. allocationLoop e results nodeIp i fns alloc w = (Error err, w') \<and>
     (\<forall>k<j. \<exists>f. registry w (fns ! k) = Some f \<and>
         registry w' (fns ! k) = Some (withDemand e results (i + k) f)) \<and>
     (\<forall>name. name \<notin> set (take j fns) \<longrightarrow> registry w' name = registry w name)"
  using assms
proof (induction fns arbitrary: i j alloc w)
  case Nil
  then show ?case by simp
next
  case (Cons name rest)
  from Cons.prems(4) have ok: "indexOk results nodeIp i" by force
  show ?case
  proof (cases j)
    case 0
    with Cons.prems(6) obtain f where f: "registry w name = Some f"
      "saveError e i (withDemand e results i f) = Some err" by auto
    from allocationLoop_Cons_save_fails[OF ok f, of rest alloc] 0 show ?thesis by auto
  next
    case (Suc j')
    from Cons.prems(5) Suc obtain f0 where f0: "registry w name = Some f0"
      "saveError e i (withDemand e results i f0) = None" by force
    from Cons.prems(3) f0(1) have nm: "fnName f0 = name" by (simp add: keyedByName_def)
    from allocationLoop_Cons_saved[OF ok f0, of rest alloc] nm obtain m w2 where
      reg: "registry w2 = (registry w)(name \<mapsto> withDemand e results i f0)"
      and step: "allocationLoop e results nodeIp i (name # rest) alloc w =
         allocationLoop e results nodeIp (Suc i) rest
           (alloc(name \<mapsto> \<lparr>Capacity = FunctionsCapacity results ! i, Instances = m\<rparr>)) w2"
      by auto
    from Cons.prems(1) Suc have a1: "j' < length rest" by simp
    from Cons.prems(2) Suc have a2: "distinct (take (Suc j') rest)"
      and fresh: "name \<notin> set (take (Suc j') rest)" by simp_all
    from Cons.prems(3) reg nm have a3: "keyedByName (registry w2)"
      by (simp add: keyedByName_update)
    from Cons.prems(4) Suc have a4: "\<forall>k\<le>j'. indexOk results nodeIp (Suc i + k)" by force
    have same: "registry w2 (rest ! k) = registry w (rest ! k)" if "k \<le> j'" for k
    proof -
      from that a1 have "rest ! k \<in> set (take (Suc j') rest)"
        by (metis in_set_conv_nth le_imp_less_Suc length_take min_less_iff_conj nth_take
            less_le_trans Suc_leI)
      with fresh have "rest ! k \<noteq> name" by auto
      with reg show ?thesis by simp
    qed
    have a5: "\<forall>k<j'. \<exists>f. registry w2 (rest ! k) = Some f \<and>
            saveError e (Suc i + k) (withDemand e results (Suc i + k) f) = None"
    proof (intro allI impI)
      fix k assume k: "k < j'"
      with Cons.prems(5) Suc have "\<exists>f. registry w ((name # rest) ! Suc k) = Some f \<and>
            saveError e (i + Suc k) (withDemand e results (i + Suc k) f) = None"
        by (metis Suc_less_eq)
      with same[of k] k show "\<exists>f. registry w2 (rest ! k) = Some f \<and>
            saveError e (Suc i + k) (withDemand e results (Suc i + k) f) = None"
        by simp
    qed
    from Cons.prems(6) Suc same[of j']
    have a6: "\<exists>f. registry w2 (rest ! j') = Some f \<and>
            saveError e (Suc i + j') (withDemand e results (Suc i + j') f) = Some err"
      by simp
    from Cons.IH[OF a1 a2 a3 a4 a5 a6] obtain w' where
      run: "allocationLoop e results nodeIp (Suc i) rest
           (alloc(name \<mapsto> \<lparr>Capacity = FunctionsCapacity results ! i, Instances = m\<rparr>)) w2
           = (Error err, w')"
      and before: "\<forall>k<j'. \<exists>f. registry w2 (rest ! k) = Some f \<and>
         registry w' (rest ! k) = Some (withDemand e results (Suc i + k) f)"
      and frame: "\<forall>name. name \<notin> set (take j' rest) \<longrightarrow> registry w' name = registry w2 name"
      by blast
    from fresh have fresh': "name \<notin> set (take j' rest)"
      by (metis in_set_takeD take_Suc_conv_app_nth set_take_subset_set_take le_SucI order_refl subsetD)
    have c1: "\<forall>k<j. \<exists>f. registry w ((name # rest) ! k) = Some f \<and>
         registry w' ((name # rest) ! k) = Some (withDemand e results (i + k) f)"
    proof (intro allI impI)
      fix k assume k: "k < j"
      show "\<exists>f. registry w ((name # rest) ! k) = Some f \<and>
         registry w' ((name # rest) ! k) = Some (withDemand e results (i + k) f)"
      proof (cases k)
        case 0
        with f0(1) frame fresh' reg show ?thesis by simp
      next
        case (Suc k')
        with k \<open>j = Suc j'\<close> have k': "k' < j'" by simp
        from before[rule_format, OF k'] obtain f where
          f2: "registry w2 (rest ! k') = Some f"
          and f': "registry w' (rest ! k') = Some (withDemand e results (Suc i + k') f)" by blast
        from f2 same[of k'] k' have "registry w (rest ! k') = Some f" by simp
        with f' Suc show ?thesis by auto
      qed
    qed
    have c2: "\<forall>n. n \<notin> set (take j (name # rest)) \<longrightarrow> registry w' n = registry w n"
      using frame reg Suc by simp
    from step run c1 c2 show ?thesis by simp
  qed
qed

text \<open>What a plan holds, read from a run that produced one.\<close>

lemma allocationLoop_Ok_inv:
  assumes "allocationLoop e results nodeIp i (name # rest) alloc w = (Ok alloc', w')"
  shows "\<exists>m w1 w2.
     instancesLoop e nodeIp i (NodesInstances results) Map.empty w = (Ok m, w1) \<and>
     set (trace w1) \<subseteq> set (trace w2) \<and>
     allocationLoop e results nodeIp (Suc i) rest
       (alloc(name \<mapsto> \<lparr>Capacity = FunctionsCapacity results ! i, Instances = m\<rparr>)) w2 =
       (Ok alloc', w')"
proof (cases rule: allocationLoop_Cons_cases[where results=results and nodeIp=nodeIp and i=i
      and w=w and name=name and e=e])
  case panic
  from allocationLoop_Cons_panic[OF this, of e name rest alloc w] assms show ?thesis by simp
next
  case not_found
  from allocationLoop_Cons_not_found[OF this, of e rest alloc] assms show ?thesis by auto
next
  case (save_fails f err)
  from allocationLoop_Cons_save_fails[OF this, of rest alloc] assms show ?thesis by auto
next
  case (saved f)
  from allocationLoop_Cons_saved[OF this, of rest alloc] assms show ?thesis
    by (metis (no_types, lifting))
qed


lemma allocationLoop_plan_source:
  "allocationLoop e results nodeIp i fns alloc w = (Ok alloc', w') \<Longrightarrow> alloc' name = Some fa \<Longrightarrow>
   alloc name = Some fa \<or>
   (\<exists>k w1 w2. k < length fns \<and> name = fns ! k \<and>
      Capacity fa = FunctionsCapacity results ! (i + k) \<and>
      instancesLoop e nodeIp (i + k) (NodesInstances results) Map.empty w1 = (Ok (Instances fa), w2) \<and>
      set (trace w2) \<subseteq> set (trace w'))"
proof (induction fns arbitrary: i alloc w)
  case Nil
  then show ?case by simp
next
  case (Cons n rest)
  from allocationLoop_Ok_inv[OF Cons.prems(1)] obtain m w1 w2 where
    il: "instancesLoop e nodeIp i (NodesInstances results) Map.empty w = (Ok m, w1)"
    and tr: "set (trace w1) \<subseteq> set (trace w2)"
    and run: "allocationLoop e results nodeIp (Suc i) rest
       (alloc(n \<mapsto> \<lparr>Capacity = FunctionsCapacity results ! i, Instances = m\<rparr>)) w2 =
       (Ok alloc', w')" by blast
  from allocationLoop_trace_mono[OF run] tr have tr': "set (trace w1) \<subseteq> set (trace w')" by blast
  from Cons.IH[OF run Cons.prems(2)]
  consider (old) "(alloc(n \<mapsto> \<lparr>Capacity = FunctionsCapacity results ! i, Instances = m\<rparr>)) name = Some fa"
    | (later) k w1 w2 where "k < length rest" "name = rest ! k"
      "Capacity fa = FunctionsCapacity results ! (Suc i + k)"
      "instancesLoop e nodeIp (Suc i + k) (NodesInstances results) Map.empty w1 = (Ok (Instances fa), w2)"
      "set (trace w2) \<subseteq> set (trace w')"
    by blast
  then show ?case
  proof cases
    case old
    show ?thesis
    proof (cases "name = n")
      case True
      with old have fa: "fa = \<lparr>Capacity = FunctionsCapacity results ! i, Instances = m\<rparr>" by simp
      have "0 < length (n # rest) \<and> name = (n # rest) ! 0 \<and>
        Capacity fa = FunctionsCapacity results ! (i + 0) \<and>
        instancesLoop e nodeIp (i + 0) (NodesInstances results) Map.empty w = (Ok (Instances fa), w1) \<and>
        set (trace w1) \<subseteq> set (trace w')"
        using True fa il tr' by simp
      then show ?thesis by blast
    next
      case False
      with old show ?thesis by simp
    qed
  next
    case later
    then have "Suc k < length (n # rest) \<and> name = (n # rest) ! Suc k \<and>
        Capacity fa = FunctionsCapacity results ! (i + Suc k) \<and>
        instancesLoop e nodeIp (i + Suc k) (NodesInstances results) Map.empty w1 = (Ok (Instances fa), w2) \<and>
        set (trace w2) \<subseteq> set (trace w')"
      by simp
    then show ?thesis by blast
  qed
qed


subsection \<open>Runs on the small cluster\<close>

lemmas ex_defs = exEnv_def exWorld_def exResults_def exFunction_def exFailingEnv_def
  exNegativeResults_def exShortResults_def

lemmas run_defs = computeFunctionsAllocation_def GetFunction_def SaveToEtcd_def emit_def
  cpuDemand_example

lemma exIndexOk: "k \<le> 1 \<Longrightarrow> indexOk exResults [''10.0.0.9''] k"
proof -
  assume "k \<le> 1"
  then have "k = 0 \<or> k = 1" by auto
  then show ?thesis
    by (auto simp: indexOk_def rowOk_def isFloat64_def validKey_def exResults_def)
qed

lemma exKeyed: "keyedByName (registry exWorld)"
  by (simp add: keyedByName_def exWorld_def exFunction_def)


lemma exPlan:
  "fst (computeFunctionsAllocation exEnv exResults [''f'', ''g''] [''10.0.0.9''] exWorld) =
     Ok [''f'' \<mapsto> \<lparr>Capacity = Finite 150, Instances = [''10.0.0.9'' \<mapsto> 3]\<rparr>,
         ''g'' \<mapsto> \<lparr>Capacity = Finite 80, Instances = Map.empty\<rparr>]"
  by (simp add: run_defs ex_defs int_of_float64_def trunc_rat_def)

lemma int_of_float64_nonneg:
  "0 \<le> q \<Longrightarrow> q < 2 ^ 63 \<Longrightarrow> 0 \<le> int_of_float64 oor (Finite q)"
  by (simp add: int_of_float64_def trunc_rat_def)

lemma int_of_float64_minus_one: "int_of_float64 oor (Finite (- 1)) = - 1"
proof -
  have "trunc_rat (- 1) = - 1" by code_simp
  then show ?thesis by (simp add: int_of_float64_def)
qed


subsection \<open>Planning: failure, counts and shape\<close>

text \<open>
  C6. Planning is not atomic. Let the write of the record fail at function index \<open>j\<close>,
  after the indexes up to \<open>j\<close> were read, their lookups succeeded and the writes before
  \<open>j\<close> succeeded (the names up to \<open>j\<close> distinct, the registry keyed by name). Then the
  call returns that error and no plan, and for every index before \<open>j\<close> the registry
  holds the function's record with the new CPU demand.
\<close>

theorem planning_not_atomic:
  assumes "j < length functions" and "distinct (take (Suc j) functions)"
    and "keyedByName (registry w)"
    and "\<forall>k\<le>j. indexOk results nodeIp k"
    and "\<forall>k<j. \<exists>f. registry w (functions ! k) = Some f \<and>
            saveError e k (withDemand e results k f) = None"
    and "\<exists>f. registry w (functions ! j) = Some f \<and>
            saveError e j (withDemand e results j f) = Some err"
  shows "\<exists>w'. computeFunctionsAllocation e results functions nodeIp w = (Error err, w') \<and>
     (\<forall>k<j. \<exists>f. registry w (functions ! k) = Some f \<and>
         registry w' (functions ! k) = Some (withDemand e results k f))"
proof -
  from assms(4) have a4: "\<forall>k\<le>j. indexOk results nodeIp (0 + k)" by simp
  from assms(5) have a5: "\<forall>k<j. \<exists>f. registry w (functions ! k) = Some f \<and>
            saveError e (0 + k) (withDemand e results (0 + k) f) = None" by simp
  from assms(6) have a6: "\<exists>f. registry w (functions ! j) = Some f \<and>
            saveError e (0 + j) (withDemand e results (0 + j) f) = Some err" by simp
  from allocationLoop_fails_at[OF assms(1,2,3) a4 a5 a6, of Map.empty]
  show ?thesis by (auto simp: computeFunctionsAllocation_def)
qed

theorem planning_not_atomic_witness:
  "\<exists>w'. computeFunctionsAllocation exFailingEnv exResults [''f'', ''g''] [''10.0.0.9''] exWorld =
          (Error ''etcd unavailable'', w') \<and>
        registry w' ''f'' = Some ((exFunction ''f'')\<lparr>fnCPUDemand := Finite (3 / 4)\<rparr>)"
proof -
  have a1: "1 < length [''f'', ''g'']" by simp
  have a2: "distinct (take (Suc 1) [''f'', ''g''])" by simp
  have a4: "\<forall>k\<le>1. indexOk exResults [''10.0.0.9''] k" by (simp add: exIndexOk)
  have a5: "\<forall>k<1. \<exists>f. registry exWorld ([''f'', ''g''] ! k) = Some f \<and>
            saveError exFailingEnv k (withDemand exFailingEnv exResults k f) = None"
    by (simp add: ex_defs)
  have a6: "\<exists>f. registry exWorld ([''f'', ''g''] ! 1) = Some f \<and>
            saveError exFailingEnv 1 (withDemand exFailingEnv exResults 1 f) = Some ''etcd unavailable''"
    by (simp add: ex_defs)
  from planning_not_atomic[OF a1 a2 exKeyed a4 a5 a6] obtain w' where
    run: "computeFunctionsAllocation exFailingEnv exResults [''f'', ''g''] [''10.0.0.9''] exWorld =
          (Error ''etcd unavailable'', w')"
    and reg: "\<forall>k<1. \<exists>f. registry exWorld ([''f'', ''g''] ! k) = Some f \<and>
         registry w' ([''f'', ''g''] ! k) = Some (withDemand exFailingEnv exResults k f)"
    by blast
  from reg have "registry w' ''f'' = Some (withDemand exFailingEnv exResults 0 (exFunction ''f''))"
    by (simp add: exWorld_def)
  moreover have "withDemand exFailingEnv exResults 0 (exFunction ''f'') =
      (exFunction ''f'')\<lparr>fnCPUDemand := Finite (3 / 4)\<rparr>"
    by (simp add: withDemand_def ex_defs cpuDemand_example)
  ultimately show ?thesis using run by simp
qed

text \<open>
  C9, as the code has it. Every instance count stored in a plan is the conversion to
  int (the fraction dropped, towards zero) of the number the solver gave for that node
  and that function; it is not negative when no number in the solver's answer is
  negative or beyond the range of an int. Nothing makes the solver's numbers so: the
  entry \<open>-1.0\<close> is stored as the count \<open>-1\<close>, which is the counterexample to the claim
  that every stored count is at least 0.
\<close>

theorem stored_counts:
  assumes "computeFunctionsAllocation e results functions nodeIp w = (Ok allocation, w')"
    and "allocation functionName = Some fa" and "Instances fa ip = Some n"
  shows "(\<exists>i key instances x. i < length functions \<and> functionName = functions ! i \<and>
            (key, instances) \<in> set (NodesInstances results) \<and> i < length instances \<and>
            instances ! i = Float64 x \<and> validKey nodeIp key \<and> ip = nodeIp ! nat key \<and>
            n = int_of_float64 (intOutOfRange e) x) \<and>
         ((\<forall>row\<in>set (NodesInstances results). \<forall>v\<in>set (snd row). countInRange v) \<longrightarrow> 0 \<le> n)"
proof -
  from assms(1) have run: "allocationLoop e results nodeIp 0 functions Map.empty w = (Ok allocation, w')"
    by (simp add: computeFunctionsAllocation_def)
  from allocationLoop_plan_source[OF run assms(2)] obtain i w1 w2 where
    i: "i < length functions" "functionName = functions ! i"
    and il: "instancesLoop e nodeIp i (NodesInstances results) Map.empty w1 = (Ok (Instances fa), w2)"
    by auto
  from instancesLoop_values[OF il assms(3)] obtain key instances x where
    src: "(key, instances) \<in> set (NodesInstances results)" "i < length instances"
      "instances ! i = Float64 x" "validKey nodeIp key" "ip = nodeIp ! nat key"
      "n = int_of_float64 (intOutOfRange e) x"
    by auto
  have "0 \<le> n" if "\<forall>row\<in>set (NodesInstances results). \<forall>v\<in>set (snd row). countInRange v"
  proof -
    from src(2) have "instances ! i \<in> set instances" by simp
    with that src(1) have "countInRange (instances ! i)" by force
    with src(3) obtain q where "x = Finite q" "0 \<le> q" "q < 2 ^ 63"
      by (cases x) (simp_all add: countInRange_def)
    with src(6) show ?thesis by (simp add: int_of_float64_nonneg)
  qed
  with i src show ?thesis by blast
qed

theorem stored_counts_witness:
  "countInRange (Float64 (Finite 3)) \<and> countInRange (String ''two'') \<and>
   (\<exists>i key instances x. i < length [''f'', ''g''] \<and> ''f'' = [''f'', ''g''] ! i \<and>
      (key, instances) \<in> set (NodesInstances exResults) \<and> i < length instances \<and>
      instances ! i = Float64 x \<and> validKey [''10.0.0.9''] key \<and>
      ''10.0.0.9'' = [''10.0.0.9''] ! nat key \<and>
      (3::int) = int_of_float64 (intOutOfRange exEnv) x) \<and>
   (0::int) \<le> 3"
proof -
  let ?r = "computeFunctionsAllocation exEnv exResults [''f'', ''g''] [''10.0.0.9''] exWorld"
  let ?plan = "[''f'' \<mapsto> \<lparr>Capacity = Finite 150, Instances = [''10.0.0.9'' \<mapsto> (3::int)]\<rparr>,
         ''g'' \<mapsto> \<lparr>Capacity = Finite 80, Instances = Map.empty\<rparr>]"
  have run: "?r = (Ok ?plan, snd ?r)"
    using exPlan by (metis prod.collapse)
  have f: "?plan ''f'' = Some \<lparr>Capacity = Finite 150, Instances = [''10.0.0.9'' \<mapsto> (3::int)]\<rparr>"
    by simp
  have n: "Instances \<lparr>Capacity = Finite 150, Instances = [''10.0.0.9'' \<mapsto> (3::int)]\<rparr> ''10.0.0.9''
      = Some 3" by simp
  have c: "countInRange (Float64 (Finite 3))" "countInRange (String ''two'')"
    by (simp_all add: countInRange_def)
  from stored_counts[OF run f n] c show ?thesis by simp
qed

theorem stored_counts_counterexample:
  "instancesAt (fst (computeFunctionsAllocation exEnv exNegativeResults [''f'', ''g'']
      [''10.0.0.9''] exWorld)) ''f'' ''10.0.0.9'' = Some (- 1) \<and> (- 1 :: int) < 0"
  by (simp add: instancesAt_def run_defs ex_defs int_of_float64_minus_one)



subsection \<open>The IP of a peer\<close>

lemma urlSlice_four_byte_port:
  "length port = 4 \<Longrightarrow> urlSlice (''http://'' @ host @ '':'' @ port) = host"
  by (simp add: urlSlice_def)

text \<open>
  C3. The spec asks that a peer's IP be the host of its URL by a structural parse, right
  for every well-formed URL whatever its length. \<^verbatim>\<open>prepareNodeInfo\<close> takes the bytes
  from offset 7 to five before the end: the host only when the scheme is \<^verbatim>\<open>http\<close> and
  the port has four digits. For the peer \<^verbatim>\<open>http://10.0.0.1:80\<close> the host is
  \<^verbatim>\<open>10.0.0.1\<close> and the code stores \<^verbatim>\<open>10.0.0\<close>.
\<close>

theorem url_slice_fixed_offsets:
  "specHost (Url exShortPortServer) = ''10.0.0.1'' \<and>
   prepareNodeInfo exEnv [(''node1'', exShortPortServer)] =
     Ok (\<lparr>TotalMemoryMB = [16000, 8000], ComputationalCapacity = [9600, 800],
          MaximumCapacity = [2400, 200], IPC = [15, 10], PowerConsumption = [350, 400]\<rparr>,
         [''10.0.0'', ''10.0.0.9''])"
  by code_simp

subsection \<open>The solve cycle\<close>

text \<open>The log of the results and the snapshot of the functions leave the registry as
  it is; no step of the cycle takes an entry out of the trace.\<close>

lemma foldl_emit_frame:
  "registry (foldl (\<lambda>w (nodeID, instances). emit (LogNodeInstances nodeID instances) w) w rows)
     = registry w \<and>
   set (trace w) \<subseteq> set (trace (foldl (\<lambda>w (nodeID, instances).
       emit (LogNodeInstances nodeID instances) w) w rows))"
proof (induction rows arbitrary: w)
  case Nil
  then show ?case by simp
next
  case (Cons row rows)
  obtain nodeID instances where "row = (nodeID, instances)" by (cases row)
  with Cons.IH[of "emit (LogNodeInstances nodeID instances) w"] show ?case
    by (auto simp: emit_def)
qed

lemma logResults_frame:
  "registry (logResults results nodeIp w) = registry w \<and>
   set (trace w) \<subseteq> set (trace (logResults results nodeIp w))"
  using foldl_emit_frame[of "emit (LogResults results) w" "NodesInstances results"]
  by (auto simp: logResults_def Let_def emit_def)


lemma saveAllocationToEtcd_trace_mono:
  "saveAllocationToEtcd e allocation w = (r, w') \<Longrightarrow> set (trace w) \<subseteq> set (trace w')"
  by (auto simp: saveAllocationToEtcd_def emit_def split: option.splits sum.splits)


lemma processResults_trace_mono:
  "processResults e results functions nodeIp w = (r, w') \<Longrightarrow> set (trace w) \<subseteq> set (trace w')"
proof -
  assume run: "processResults e results functions nodeIp w = (r, w')"
  let ?w3 = "logResults results nodeIp w"
  obtain r4 w4 where c: "computeFunctionsAllocation e results functions nodeIp ?w3 = (r4, w4)"
    by (cases "computeFunctionsAllocation e results functions nodeIp ?w3")
  then have m4: "set (trace ?w3) \<subseteq> set (trace w4)"
    by (simp add: computeFunctionsAllocation_def allocationLoop_trace_mono)
  from logResults_frame[of results nodeIp w] have m3: "set (trace w) \<subseteq> set (trace ?w3)" by simp
  show ?thesis
  proof (cases r4)
    case (Ok allocation)
    obtain r5 w5 where s: "saveAllocationToEtcd e allocation w4 = (r5, w5)"
      by (cases "saveAllocationToEtcd e allocation w4")
    from saveAllocationToEtcd_trace_mono[OF s] have m5: "set (trace w4) \<subseteq> set (trace w5)" .
    from run c Ok s have "set (trace w5) \<subseteq> set (trace w')"
      by (cases r5) (auto simp: processResults_def Let_def emit_def)
    with m3 m4 m5 show ?thesis by blast
  next
    case (Error err)
    with run c have "set (trace w4) \<subseteq> set (trace w')"
      by (auto simp: processResults_def Let_def emit_def)
    with m3 m4 show ?thesis by blast
  next
    case (Panic p)
    with run c have "set (trace w4) \<subseteq> set (trace w')"
      by (auto simp: processResults_def Let_def emit_def)
    with m3 m4 show ?thesis by blast
  next
    case (Exit m)
    with run c have "set (trace w4) \<subseteq> set (trace w')"
      by (auto simp: processResults_def Let_def emit_def)
    with m3 m4 show ?thesis by blast
  qed
qed

text \<open>\<^verbatim>\<open>solve\<close> up to the solver's answer.\<close>

lemma solve_no_functions:
  "GetAll e = Inr [] \<Longrightarrow> solve e w = (Ok (), emit LogRunningSolver w)"
  by (simp add: solve_def Let_def)

lemma solve_calls_solver:
  assumes "GetAll e = Inr functions" and "functions \<noteq> []"
    and "prepareNodeInfo e (GetServersMap e) = Ok (nodeInfo, nodeIp)"
  shows "\<exists>functionInfo w1 request.
     prepareFunctionInfo e functions (emit LogRunningSolver w) = (functionInfo, w1) \<and>
     request = solverRequest (length (GetServersMap e) + 1) (length functions) nodeInfo functionInfo \<and>
     solve e w =
       (case unmarshalResults e (startSolver e request) of
          Inl err \<Rightarrow>
            (Exit (''Error unmarshalling results: '' @ err),
             emit (LogFatal (''Error unmarshalling results: '' @ err))
               (emit (StartSolver request) (emit InitializePython w1)))
        | Inr results \<Rightarrow>
            processResults e results functions nodeIp
              (emit (StartSolver request) (emit InitializePython w1)))"
proof -
  obtain functionInfo w1 where
    p: "prepareFunctionInfo e functions (emit LogRunningSolver w) = (functionInfo, w1)"
    by (cases "prepareFunctionInfo e functions (emit LogRunningSolver w)")
  with assms show ?thesis by (simp add: solve_def Let_def)
qed

lemma solve_solver_called:
  assumes "GetAll e = Inr functions" and "functions \<noteq> []"
    and "prepareNodeInfo e (GetServersMap e) = Ok (nodeInfo, nodeIp)"
  shows "\<exists>request. StartSolver request \<in> set (trace (snd (solve e w)))"
proof -
  from solve_calls_solver[OF assms, of w] obtain functionInfo w1 request where
    s: "solve e w =
       (case unmarshalResults e (startSolver e request) of
          Inl err \<Rightarrow>
            (Exit (''Error unmarshalling results: '' @ err),
             emit (LogFatal (''Error unmarshalling results: '' @ err))
               (emit (StartSolver request) (emit InitializePython w1)))
        | Inr results \<Rightarrow>
            processResults e results functions nodeIp
              (emit (StartSolver request) (emit InitializePython w1)))"
    by blast
  let ?w2 = "emit (StartSolver request) (emit InitializePython w1)"
  have in2: "StartSolver request \<in> set (trace ?w2)" by (simp add: emit_def)
  have "StartSolver request \<in> set (trace (snd (solve e w)))"
  proof (cases "unmarshalResults e (startSolver e request)")
    case (Inl err)
    with s in2 show ?thesis by (simp add: emit_def)
  next
    case (Inr results)
    obtain r w' where pr: "processResults e results functions nodeIp ?w2 = (r, w')"
      by (cases "processResults e results functions nodeIp ?w2")
    from processResults_trace_mono[OF pr] in2 have "StartSolver request \<in> set (trace w')" by blast
    with s Inr pr show ?thesis by simp
  qed
  then show ?thesis by blast
qed

lemma prepareNodeInfo_no_peers:
  "\<exists>nodeInfo nodeIp. prepareNodeInfo e [] = Ok (nodeInfo, nodeIp)"
  by (simp add: prepareNodeInfo_def Let_def)

lemma exSolveTrace_code:
  "trace (snd (solve exEnv exWorld)) =
    [LogRunningSolver, InitializePython, StartSolver exRequest, LogResults exResults,
     LogNodeInstances 0 [Float64 (Finite 3), String ''two''], LogNodeIps [''10.0.0.9''],
     SavedFunction ((exFunction ''f'')\<lparr>fnCPUDemand := Finite (3 / 4)\<rparr>),
     LogExpectedFloat64 (String ''two'') 1 0,
     SavedFunction ((exFunction ''g'')\<lparr>fnCPUDemand := Finite (2 / 5)\<rparr>),
     EtcdGrant 60, EtcdPut ''allocation'' ''payload'' 7, LogSolverTerminated]"
  by code_simp


text \<open>
  C1, as the code has it. With an empty function list \<^verbatim>\<open>solve\<close> is a no-op: it logs its
  first line and returns, with no solver call, no write and no publication. The number
  of peers does not stop it: the node count is the number of peers plus one (the local
  node), so it is never zero, and with no peer and at least one function the solver is
  called. On the small cluster, which has no peer, the solver is called and the plan is
  published: the counterexample to the claim that zero peers make the cycle a no-op.
\<close>

theorem solve_noop:
  "(GetAll e = Inr [] \<longrightarrow> solve e w = (Ok (), emit LogRunningSolver w)) \<and>
   (GetServersMap e = [] \<and> GetAll e = Inr functions \<and> functions \<noteq> [] \<longrightarrow>
      (\<exists>request. StartSolver request \<in> set (trace (snd (solve e w)))))"
proof (intro conjI impI)
  assume "GetAll e = Inr []"
  then show "solve e w = (Ok (), emit LogRunningSolver w)" by (rule solve_no_functions)
next
  assume a: "GetServersMap e = [] \<and> GetAll e = Inr functions \<and> functions \<noteq> []"
  from prepareNodeInfo_no_peers[of e] a obtain nodeInfo nodeIp where
    "prepareNodeInfo e (GetServersMap e) = Ok (nodeInfo, nodeIp)" by auto
  with a show "\<exists>request. StartSolver request \<in> set (trace (snd (solve e w)))"
    by (auto intro: solve_solver_called)
qed

theorem solve_noop_witness:
  "GetAll (exEnv\<lparr>GetAll := Inr []\<rparr>) = Inr [] \<and>
   solve (exEnv\<lparr>GetAll := Inr []\<rparr>) exWorld = (Ok (), emit LogRunningSolver exWorld) \<and>
   GetServersMap exEnv = [] \<and> GetAll exEnv = Inr [''f'', ''g''] \<and>
   (\<exists>request. StartSolver request \<in> set (trace (snd (solve exEnv exWorld))))"
proof -
  have a: "GetAll (exEnv\<lparr>GetAll := Inr []\<rparr>) = Inr []" by simp
  have b: "GetServersMap exEnv = [] \<and> GetAll exEnv = Inr [''f'', ''g''] \<and> [''f'', ''g''] \<noteq> []"
    by (simp add: exEnv_def)
  from solve_noop[where e="exEnv\<lparr>GetAll := Inr []\<rparr>" and w=exWorld] a
  have "solve (exEnv\<lparr>GetAll := Inr []\<rparr>) exWorld = (Ok (), emit LogRunningSolver exWorld)"
    by blast
  moreover from solve_noop[of exEnv exWorld "[''f'', ''g'']"] b
  have "\<exists>request. StartSolver request \<in> set (trace (snd (solve exEnv exWorld)))" by blast
  ultimately show ?thesis using a b by simp
qed

theorem solve_noop_counterexample:
  "GetServersMap exEnv = [] \<and>
   StartSolver exRequest \<in> set (trace (snd (solve exEnv exWorld))) \<and>
   EtcdPut ''allocation'' ''payload'' 7 \<in> set (trace (snd (solve exEnv exWorld)))"
  by (simp add: exSolveTrace_code) (simp add: exEnv_def)

subsection \<open>Instance counts in the published plan\<close>






end
